theory Spec2Isabelle
  imports Main
begin

section \<open>Vayu build script (build.py): a shallow embedding\<close>

text \<open>
  Python strings are modelled as \<^typ>\<open>string\<close>; a character stands for a code point below
  256. In that range the decimal digits matched by the regular expression class
  \<^verbatim>\<open>\d\<close> are exactly \<^verbatim>\<open>0\<close> to \<^verbatim>\<open>9\<close>, and the characters
  removed by \<^verbatim>\<open>str.strip()\<close> are the twelve listed in \<open>is_space\<close>.
  Python integers are unbounded; the components of a version are never negative, so they
  are natural numbers. The interpreter converts between integers and decimal strings only
  up to a number of digits (\<^verbatim>\<open>sys.get_int_max_str_digits()\<close>, 4300 unless
  configured otherwise); beyond it \<^verbatim>\<open>int()\<close> and the formatting of an integer
  raise ValueError.
\<close>

subsection \<open>Ways a call can end without returning\<close>

datatype exc =
    FileNotFoundError
  | PermissionError
  | JSONDecodeError
  | TypeError
  | IndexError
  | TimeoutExpired
  | OSError
  | ValueError

text \<open>
  \<open>Fatal m\<close>: \<^verbatim>\<open>print_error(m)\<close> printed \<open>m\<close> and called
  \<^verbatim>\<open>sys.exit(1)\<close>. \<open>Exit1\<close>: a bare \<^verbatim>\<open>sys.exit(1)\<close>.
  \<open>Uncaught e\<close>: the exception \<open>e\<close> left the function. \<open>Reported e\<close>: the handler at
  the end of \<^verbatim>\<open>main\<close> caught \<open>e\<close> and passed its text to \<^verbatim>\<open>print_error\<close>.
  The process ends with exit status 1 in all four cases.
\<close>

datatype abort = Fatal string | Exit1 | Uncaught exc | Reported exc

subsection \<open>The host, the state of a run, and actions\<close>

text \<open>
  What \<^verbatim>\<open>subprocess.run\<close> can do: the child ran and ended with an exit code, its
  standard output and its standard error; or the executable (or the working directory) was
  not there (FileNotFoundError); or the time limit passed; or the operating system refused
  in another way (any other OSError: NotADirectoryError for a path that runs through a
  file, PermissionError for a file that may not be executed).
\<close>

datatype proc_result =
    Completed int string string
  | NoSuchFile
  | TimedOut
  | Refused

datatype symbol = CHECK | CROSS

datatype color = GREEN | RED

text \<open>
  What the main thread does that can be seen from outside, in order. Purely decorative
  output (blank lines, the banner, headings, the "next steps" after a build) is left out;
  the message of \<^verbatim>\<open>print_error\<close> is carried by \<open>Fatal\<close>, since nothing is
  printed after it.
\<close>

datatype event =
    Spawn "string list" "string option" proc_result
  | Wrote string string
  | Transition string string
  | DryRunNote
  | Updating string
  | Bumped string
  | GitHints string string
  | CommandError "string list" int string "(bool \<times> string) list" nat
  | SpinnerLine color symbol string
  | ThreadStarted string
  | Step nat nat string
  | LogDim string
  | ToolRow string bool string
  | WindowsTips
  | SetEnv string string
  | Rmtree string
  | Mkdir string
  | Copy string string
  | Chmod string
  | UsingExisting
  | TestsPassed string
  | TestsFailed "(bool \<times> string) list"
  | TestsComplete
  | BuildInfo string "string list" string bool
  | Success "(string \<times> string) list"

datatype json =
    JNull
  | JBool bool
  | JNumber string
  | JString string
  | JArray "json list"
  | JObject "(string \<times> json) list"

datatype indent = IndentBy nat | IndentWith string

text \<open>
  The host: everything the script asks of its surroundings. Answers that the run itself
  can change (what exists on disk, what a child process does) depend on what has happened
  so far. \<open>json_loads\<close> and \<open>json_dumps\<close> are the standard library's; \<open>None\<close> is a
  JSONDecodeError. \<open>int_max_str_digits\<close> is the interpreter's limit on the digits of a
  conversion between integer and string; 0 stands for no limit.
\<close>

record host =
  system :: string
  which :: "string \<Rightarrow> string option"
  getenv :: "string \<Rightarrow> string option"
  expanduser :: "string \<Rightarrow> string"
  parent :: "string \<Rightarrow> string"
  path_exists :: "event list \<Rightarrow> string \<Rightarrow> bool"
  path_isdir :: "event list \<Rightarrow> string \<Rightarrow> bool"
  glob :: "event list \<Rightarrow> string \<Rightarrow> string \<Rightarrow> string list"
  proc :: "event list \<Rightarrow> string list \<Rightarrow> string option \<Rightarrow> proc_result"
  fileop_ok :: "event list \<Rightarrow> event \<Rightarrow> bool"
  relative_to_cwd :: "string \<Rightarrow> string"
  json_loads :: "string \<Rightarrow> json option"
  json_dumps :: "json \<Rightarrow> indent \<Rightarrow> string"
  int_max_str_digits :: nat

text \<open>A text file: its content, and whether the process may write to it.\<close>

datatype textfile = TextFile (content: string) (writable: bool)

text \<open>
  The state of a run: the text files (read and written by the version bump only), the
  events so far, and the script's global variables.
\<close>

record world =
  files :: "string \<rightharpoonup> textfile"
  trace :: "event list"
  VERBOSE :: bool
  CMAKE_PATH :: string
  PNPM_PATH :: string

text \<open>
  An action takes the state and ends either with a value or with an \<^typ>\<open>abort\<close>, and
  with the state it has reached: what was done before an exception stays done.
\<close>

type_synonym 'a act = "world \<Rightarrow> (abort + 'a) \<times> world"

definition ret :: "'a \<Rightarrow> 'a act" where
  "ret x = (\<lambda>w. (Inr x, w))"

definition raise :: "abort \<Rightarrow> 'a act" where
  "raise e = (\<lambda>w. (Inl e, w))"

text \<open>\<open>seq m f\<close>: first \<open>m\<close>, then \<open>f\<close> on its value; an abort of \<open>m\<close> ends the whole.\<close>

definition seq :: "'a act \<Rightarrow> ('a \<Rightarrow> 'b act) \<Rightarrow> 'b act" where
  "seq m f = (\<lambda>w. case m w of (Inl e, w') \<Rightarrow> (Inl e, w') | (Inr x, w') \<Rightarrow> f x w')"

definition emit :: "event \<Rightarrow> unit act" where
  "emit ev = (\<lambda>w. (Inr (), w\<lparr>trace := trace w @ [ev]\<rparr>))"

definition print_error :: "string \<Rightarrow> 'a act" where
  "print_error message = raise (Fatal message)"

text \<open>A pure result that may be an abort, as an action.\<close>

definition lift :: "abort + 'a \<Rightarrow> 'a act" where
  "lift r = (\<lambda>w. (r, w))"

text \<open>Reading the state, for instance a global variable.\<close>

definition get :: "(world \<Rightarrow> 'a) \<Rightarrow> 'a act" where
  "get f = (\<lambda>w. (Inr (f w), w))"

text \<open>A question to the host, answered for the present moment.\<close>

definition ask :: "(event list \<Rightarrow> 'a) \<Rightarrow> 'a act" where
  "ask f = (\<lambda>w. (Inr (f (trace w)), w))"

text \<open>\<^verbatim>\<open>Path(p) / q\<close> for a relative \<open>q\<close>; the empty path is the current directory.\<close>

definition joinpath :: "string \<Rightarrow> string \<Rightarrow> string" where
  "joinpath p q = (if p = [] then q else p @ ''/'' @ q)"

definition detect_platform :: "host \<Rightarrow> abort + (string \<times> string)" where
  "detect_platform h =
     (if system h = ''Windows'' then Inr (''Windows'', ''windows'')
      else if system h = ''Linux'' then Inr (''Linux'', ''linux'')
      else if system h = ''Darwin'' then Inr (''macOS'', ''macos'')
      else Inl (Fatal (''Unsupported platform: '' @ system h)))"

subsection \<open>Reading and writing text files\<close>

definition read_text :: "string \<Rightarrow> string act" where
  "read_text p = (\<lambda>w. case files w p of
       None \<Rightarrow> (Inl (Uncaught FileNotFoundError), w)
     | Some f \<Rightarrow> (Inr (content f), w))"

definition write_text :: "string \<Rightarrow> string \<Rightarrow> unit act" where
  "write_text p s = (\<lambda>w. case files w p of
       None \<Rightarrow> (Inr (), w\<lparr>files := (files w)(p \<mapsto> TextFile s True), trace := trace w @ [Wrote p s]\<rparr>)
     | Some f \<Rightarrow>
         if writable f
         then (Inr (), w\<lparr>files := (files w)(p \<mapsto> TextFile s True), trace := trace w @ [Wrote p s]\<rparr>)
         else (Inl (Uncaught PermissionError), w))"

subsection \<open>Strings and numbers\<close>

definition newline :: char where
  "newline = CHR 0x0A"

definition is_digit :: "char \<Rightarrow> bool" where
  "is_digit c = (48 \<le> (of_char c :: nat) \<and> (of_char c :: nat) \<le> 57)"

definition is_space :: "char \<Rightarrow> bool" where
  "is_space c = (let n = (of_char c :: nat) in
     (9 \<le> n \<and> n \<le> 13) \<or> (28 \<le> n \<and> n \<le> 32) \<or> n = 133 \<or> n = 160)"

text \<open>\<^verbatim>\<open>s.strip()\<close>\<close>

definition strip :: "string \<Rightarrow> string" where
  "strip s = rev (dropWhile is_space (rev (dropWhile is_space s)))"

text \<open>The number that a string of digits denotes (leading zeros are accepted).\<close>

definition digit_val :: "char \<Rightarrow> nat" where
  "digit_val c = of_char c - 48"

definition digits_value :: "string \<Rightarrow> nat" where
  "digits_value s = foldl (\<lambda>n c. 10 * n + digit_val c) 0 s"

text \<open>The decimal form of a number, without leading zero.\<close>

definition digit_char :: "nat \<Rightarrow> char" where
  "digit_char d = char_of (48 + d)"

fun decimal :: "nat \<Rightarrow> string" where
  "decimal n = (if n < 10 then [digit_char n] else decimal (n div 10) @ [digit_char (n mod 10)])"

declare decimal.simps [simp del]

text \<open>
  The limit on conversions: a conversion of more than \<open>int_max_str_digits\<close> digits is
  refused. The interpreter looks at the limit only above 640 digits
  (\<^verbatim>\<open>sys.int_info.str_digits_check_threshold\<close>), and a limit of 0 switches the
  check off. For \<^verbatim>\<open>int()\<close> the digits counted are those of the string, leading
  zeros included; for the formatting of a number they are those of its decimal form.
\<close>

definition str_digits_check_threshold :: nat where
  "str_digits_check_threshold = 640"

definition exceeds_limit :: "host \<Rightarrow> nat \<Rightarrow> bool" where
  "exceeds_limit h digits =
     (str_digits_check_threshold < digits \<and> 0 < int_max_str_digits h \<and> int_max_str_digits h < digits)"

text \<open>\<^verbatim>\<open>int(s)\<close> on a non-empty string of digits.\<close>

definition py_int :: "host \<Rightarrow> string \<Rightarrow> abort + nat" where
  "py_int h s =
     (if exceeds_limit h (length s) then Inl (Uncaught ValueError) else Inr (digits_value s))"

text \<open>\<^verbatim>\<open>str(n)\<close>, as the f-strings render a number.\<close>

definition py_str :: "host \<Rightarrow> nat \<Rightarrow> abort + string" where
  "py_str h n =
     (if exceeds_limit h (length (decimal n)) then Inl (Uncaught ValueError) else Inr (decimal n))"

text \<open>A pure computation that goes on with the value of the first, unless that raised.\<close>

definition and_then :: "abort + 'a \<Rightarrow> ('a \<Rightarrow> abort + 'b) \<Rightarrow> abort + 'b" where
  "and_then r f = (case r of Inl e \<Rightarrow> Inl e | Inr x \<Rightarrow> f x)"

subsection \<open>parse\_version (lines 881-886)\<close>

text \<open>
  Pieces of a regular expression, each returning what is left of the input after the
  piece has matched. \<^verbatim>\<open>\d+\<close> is greedy; in the patterns of this script it is
  always followed by a character that is not a digit (or by the end), so giving digits back
  never helps and the longest run is the only match.
\<close>

definition eat_lit :: "string \<Rightarrow> string \<Rightarrow> string option" where
  "eat_lit lit s = (if take (length lit) s = lit then Some (drop (length lit) s) else None)"

definition eat_digits :: "string \<Rightarrow> string option" where
  "eat_digits s = (if takeWhile is_digit s = [] then None else Some (dropWhile is_digit s))"

text \<open>
  \<^verbatim>\<open>re.match(r'^(\d+)\.(\d+)\.(\d+)$', s)\<close>: the three groups, when the whole of
  \<open>s\<close> matches. Without the MULTILINE flag \<^verbatim>\<open>$\<close> matches at the end and also just
  before a newline that ends the string.
\<close>

definition match_version :: "string \<Rightarrow> (string \<times> string \<times> string) option" where
  "match_version s =
     Option.bind (eat_digits s) (\<lambda>r1.
     Option.bind (eat_lit ''.'' r1) (\<lambda>r2.
     Option.bind (eat_digits r2) (\<lambda>r3.
     Option.bind (eat_lit ''.'' r3) (\<lambda>r4.
     Option.bind (eat_digits r4) (\<lambda>r5.
       if r5 = [] \<or> r5 = [newline]
       then Some (takeWhile is_digit s, takeWhile is_digit r2, takeWhile is_digit r4)
       else None)))))"

definition parse_version :: "host \<Rightarrow> string \<Rightarrow> abort + (nat \<times> nat \<times> nat)" where
  "parse_version h version_str =
     (case match_version (strip version_str) of
        None \<Rightarrow> Inl (Fatal (''Invalid version format: '' @ version_str @ '' (expected: X.Y.Z)''))
      | Some (a, b, c) \<Rightarrow>
          and_then (py_int h a) (\<lambda>major.
          and_then (py_int h b) (\<lambda>minor.
          and_then (py_int h c) (\<lambda>patch. Inr (major, minor, patch)))))"

subsection \<open>bump\_version: the new version (lines 903-915)\<close>

definition calc_new_version :: "host \<Rightarrow> string \<Rightarrow> nat \<times> nat \<times> nat \<Rightarrow> abort + string" where
  "calc_new_version h bump_type v =
     (case v of (major, minor, patch) \<Rightarrow>
        if bump_type = ''major'' \<or> bump_type = ''minor'' \<or> bump_type = ''patch'' then
          (if bump_type = ''major'' then
             and_then (py_str h (major + 1)) (\<lambda>a. Inr (a @ ''.0.0''))
           else if bump_type = ''minor'' then
             and_then (py_str h major) (\<lambda>a.
             and_then (py_str h (minor + 1)) (\<lambda>b. Inr (a @ ''.'' @ b @ ''.0'')))
           else
             and_then (py_str h major) (\<lambda>a.
             and_then (py_str h minor) (\<lambda>b.
             and_then (py_str h (patch + 1)) (\<lambda>c. Inr (a @ ''.'' @ b @ ''.'' @ c)))))
        else
          (case parse_version h bump_type of
             Inl e \<Rightarrow> Inl e
           | Inr _ \<Rightarrow> Inr bump_type))"

subsection \<open>re.sub with the patterns of bump\_version\<close>

text \<open>
  \<open>re_sub m repl s\<close>: scan \<open>s\<close> from the left; where the pattern matches (\<open>m\<close> gives the
  length of the match at the head of its argument) write \<open>repl\<close> and continue after the
  match, elsewhere copy one character. The second argument counts the characters of a
  match still to be skipped. None of the patterns matches the empty string. The
  replacements hold no backslash, so they are copied as they are.
\<close>

fun re_sub_from :: "(string \<Rightarrow> nat option) \<Rightarrow> nat \<Rightarrow> string \<Rightarrow> string \<Rightarrow> string" where
  "re_sub_from m k repl [] = []"
| "re_sub_from m (Suc k) repl (c # cs) = re_sub_from m k repl cs"
| "re_sub_from m 0 repl (c # cs) =
     (case m (c # cs) of
        Some (Suc n) \<Rightarrow> repl @ re_sub_from m n repl cs
      | _ \<Rightarrow> c # re_sub_from m 0 repl cs)"

definition re_sub :: "(string \<Rightarrow> nat option) \<Rightarrow> string \<Rightarrow> string \<Rightarrow> string" where
  "re_sub m repl s = re_sub_from m 0 repl s"

definition matched :: "string \<Rightarrow> string option \<Rightarrow> nat option" where
  "matched s rest = (case rest of None \<Rightarrow> None | Some r \<Rightarrow> Some (length s - length r))"

text \<open>\<^verbatim>\<open>VERSION \d+\.\d+\.\d+\<close>\<close>

definition pat_cmake_version :: "string \<Rightarrow> nat option" where
  "pat_cmake_version s = matched s
     (Option.bind (eat_lit ''VERSION '' s) (\<lambda>r1.
      Option.bind (eat_digits r1) (\<lambda>r2.
      Option.bind (eat_lit ''.'' r2) (\<lambda>r3.
      Option.bind (eat_digits r3) (\<lambda>r4.
      Option.bind (eat_lit ''.'' r4) eat_digits)))))"

text \<open>\<^verbatim>\<open>#define VAYU_VERSION_MAJOR \d+\<close> and its two siblings.\<close>

definition pat_define_number :: "string \<Rightarrow> string \<Rightarrow> nat option" where
  "pat_define_number name s = matched s
     (Option.bind (eat_lit (''#define '' @ name @ '' '') s) eat_digits)"

text \<open>
  \<^verbatim>\<open>".*"\<close> after an opening quote already read: \<^verbatim>\<open>.\<close> is any character but a
  newline and \<^verbatim>\<open>*\<close> is greedy, so the match ends at the last quote of the line.
\<close>

definition eat_to_last_quote :: "string \<Rightarrow> string option" where
  "eat_to_last_quote s =
     (let line = takeWhile (\<lambda>c. c \<noteq> newline) s;
          upto = dropWhile (\<lambda>c. c \<noteq> CHR 0x22) (rev line)
      in if upto = [] then None else Some (drop (length upto) s))"

text \<open>\<^verbatim>\<open>#define VAYU_VERSION_STRING ".*"\<close>\<close>

definition pat_define_string :: "string \<Rightarrow> nat option" where
  "pat_define_string s = matched s
     (Option.bind (eat_lit (''#define VAYU_VERSION_STRING '' @ [CHR 0x22]) s) eat_to_last_quote)"

subsection \<open>JSON documents as Python values\<close>

text \<open>\<^verbatim>\<open>d[k] = v\<close> on a dict: a key already there keeps its place.\<close>

fun dict_set :: "(string \<times> json) list \<Rightarrow> string \<Rightarrow> json \<Rightarrow> (string \<times> json) list" where
  "dict_set [] k v = [(k, v)]"
| "dict_set ((k', v') # kvs) k v =
     (if k' = k then (k, v) # kvs else (k', v') # dict_set kvs k v)"

text \<open>On anything but a dict the assignment is a TypeError.\<close>

definition setitem :: "json \<Rightarrow> string \<Rightarrow> json \<Rightarrow> abort + json" where
  "setitem d k v = (case d of JObject kvs \<Rightarrow> Inr (JObject (dict_set kvs k v)) | _ \<Rightarrow> Inl (Uncaught TypeError))"

definition loads :: "host \<Rightarrow> string \<Rightarrow> abort + json" where
  "loads h s = (case json_loads h s of None \<Rightarrow> Inl (Uncaught JSONDecodeError) | Some d \<Rightarrow> Inr d)"

subsection \<open>bump\_version (lines 888-979)\<close>

text \<open>Lines 953-957 and 959-963: one manifest, with its indentation.\<close>

definition update_manifest :: "host \<Rightarrow> string \<Rightarrow> indent \<Rightarrow> string \<Rightarrow> unit act" where
  "update_manifest h p ind new_version =
     seq (read_text p) (\<lambda>txt.
     seq (lift (loads h txt)) (\<lambda>data.
     seq (lift (setitem data ''version'' (JString new_version))) (\<lambda>data'.
     write_text p (json_dumps h data' ind @ [newline]))))"

text \<open>Lines 944-951.\<close>

definition update_hpp :: "host \<Rightarrow> string \<Rightarrow> string \<Rightarrow> nat \<times> nat \<times> nat \<Rightarrow> unit act" where
  "update_hpp h p new_version v =
     (case v of (new_major, new_minor, new_patch) \<Rightarrow>
      seq (read_text p) (\<lambda>c0.
      seq (lift (py_str h new_major)) (\<lambda>major.
      seq (lift (py_str h new_minor)) (\<lambda>minor.
      seq (lift (py_str h new_patch)) (\<lambda>patch.
        let c1 = re_sub (pat_define_number ''VAYU_VERSION_MAJOR'')
                   (''#define VAYU_VERSION_MAJOR '' @ major) c0;
            c2 = re_sub (pat_define_number ''VAYU_VERSION_MINOR'')
                   (''#define VAYU_VERSION_MINOR '' @ minor) c1;
            c3 = re_sub (pat_define_number ''VAYU_VERSION_PATCH'')
                   (''#define VAYU_VERSION_PATCH '' @ patch) c2;
            c4 = re_sub pat_define_string
                   (''#define VAYU_VERSION_STRING '' @ [CHR 0x22] @ new_version @ [CHR 0x22]) c3
        in write_text p c4)))))"

text \<open>Lines 934-942.\<close>

definition update_cmake :: "string \<Rightarrow> string \<Rightarrow> unit act" where
  "update_cmake p new_version =
     seq (read_text p) (\<lambda>cmake_content.
     write_text p (re_sub pat_cmake_version (''VERSION '' @ new_version) cmake_content))"

definition version_file :: "string \<Rightarrow> string" where
  "version_file project_root = joinpath project_root ''VERSION''"

definition engine_cmake :: "string \<Rightarrow> string" where
  "engine_cmake project_root = joinpath (joinpath project_root ''engine'') ''CMakeLists.txt''"

definition engine_version_hpp :: "string \<Rightarrow> string" where
  "engine_version_hpp project_root =
     joinpath (joinpath (joinpath (joinpath project_root ''engine'') ''include'') ''vayu'') ''version.hpp''"

definition engine_vcpkg_json :: "string \<Rightarrow> string" where
  "engine_vcpkg_json project_root = joinpath (joinpath project_root ''engine'') ''vcpkg.json''"

definition app_package_json :: "string \<Rightarrow> string" where
  "app_package_json project_root = joinpath (joinpath project_root ''app'') ''package.json''"

text \<open>Lines 928-979: the real run, once the new version is known.\<close>

definition apply_version :: "host \<Rightarrow> string \<Rightarrow> string \<Rightarrow> unit act" where
  "apply_version h project_root new_version =
     seq (lift (parse_version h new_version)) (\<lambda>v.
     seq (emit (Updating ''VERSION'')) (\<lambda>_.
     seq (write_text (version_file project_root) (new_version @ [newline])) (\<lambda>_.
     seq (emit (Updating ''engine/CMakeLists.txt'')) (\<lambda>_.
     seq (update_cmake (engine_cmake project_root) new_version) (\<lambda>_.
     seq (emit (Updating ''engine/include/vayu/version.hpp'')) (\<lambda>_.
     seq (update_hpp h (engine_version_hpp project_root) new_version v) (\<lambda>_.
     seq (emit (Updating ''engine/vcpkg.json'')) (\<lambda>_.
     seq (update_manifest h (engine_vcpkg_json project_root) (IndentBy 2) new_version) (\<lambda>_.
     seq (emit (Updating ''app/package.json'')) (\<lambda>_.
     seq (update_manifest h (app_package_json project_root) (IndentWith [CHR 0x09]) new_version) (\<lambda>_.
     seq (emit (Bumped new_version)) (\<lambda>_.
     seq (lift (detect_platform h)) (\<lambda>p.
     emit (GitHints new_version (if fst p = ''Windows'' then '';'' else ''&&'')))))))))))))))"

definition bump_version :: "host \<Rightarrow> string \<Rightarrow> string \<Rightarrow> bool \<Rightarrow> unit act" where
  "bump_version h bump_type project_root dry_run =
     seq (get (\<lambda>w. files w (version_file project_root) \<noteq> None)) (\<lambda>there.
     if \<not> there
     then print_error (''VERSION file not found: '' @ version_file project_root)
     else
       seq (read_text (version_file project_root)) (\<lambda>txt.
       let current_version = strip txt in
       seq (lift (parse_version h current_version)) (\<lambda>v.
       seq (lift (calc_new_version h bump_type v)) (\<lambda>new_version.
       seq (emit (Transition current_version new_version)) (\<lambda>_.
       if dry_run then emit DryRunNote
       else apply_version h project_root new_version)))))"

subsection \<open>Spinner (lines 52-79)\<close>

text \<open>
  The handle of the worker thread: \<open>Alive\<close> from \<^verbatim>\<open>Thread.start()\<close> until
  \<^verbatim>\<open>join()\<close> has returned, \<open>Joined\<close> afterwards. The frames the worker draws while
  it is alive are written concurrently with the main thread and are not part of the trace.
\<close>

datatype thread = Alive | Joined

record spinner =
  message :: string
  running :: bool
  thread :: "thread option"

definition Spinner :: "string \<Rightarrow> spinner" where
  "Spinner msg = \<lparr>message = msg, running = False, thread = None\<rparr>"

definition start :: "spinner \<Rightarrow> spinner act" where
  "start s = (\<lambda>w.
     if \<not> VERBOSE w
     then (Inr (s\<lparr>running := True, thread := Some Alive\<rparr>),
           w\<lparr>trace := trace w @ [ThreadStarted (message s)]\<rparr>)
     else (Inr s, w))"

definition stop :: "symbol \<Rightarrow> color \<Rightarrow> spinner \<Rightarrow> spinner act" where
  "stop glyph col s = (\<lambda>w.
     if \<not> VERBOSE w
     then (Inr (s\<lparr>running := False,
                   thread := (case thread s of None \<Rightarrow> None | Some _ \<Rightarrow> Some Joined)\<rparr>),
           w\<lparr>trace := trace w @ [SpinnerLine col glyph (message s)]\<rparr>)
     else (Inr s, w))"

subsection \<open>Asking the host\<close>

text \<open>Python's truth value of an optional string: \<^verbatim>\<open>None\<close> and the empty string are false.\<close>

definition truthy :: "string option \<Rightarrow> bool" where
  "truthy x = (case x of None \<Rightarrow> False | Some s \<Rightarrow> s \<noteq> [])"

text \<open>\<^verbatim>\<open>os.environ.get(name, default)\<close>\<close>

definition getenv_or :: "host \<Rightarrow> string \<Rightarrow> string \<Rightarrow> string" where
  "getenv_or h name dflt = (case getenv h name of None \<Rightarrow> dflt | Some v \<Rightarrow> v)"

definition exists_now :: "host \<Rightarrow> string \<Rightarrow> bool act" where
  "exists_now h p = ask (\<lambda>now. path_exists h now p)"

text \<open>The first path of a list that exists, as the loops over candidate paths find it.\<close>

definition first_existing :: "host \<Rightarrow> string list \<Rightarrow> string option act" where
  "first_existing h ps = ask (\<lambda>now. find (path_exists h now) ps)"

text \<open>\<^verbatim>\<open>subprocess.run(argv, cwd=cwd, ...)\<close>: the host decides what happens.\<close>

definition run_proc :: "host \<Rightarrow> string list \<Rightarrow> string option \<Rightarrow> proc_result act" where
  "run_proc h argv cwd = (\<lambda>w.
     let r = proc h (trace w) argv cwd
     in (Inr r, w\<lparr>trace := trace w @ [Spawn argv cwd r]\<rparr>))"

text \<open>A file operation of the script itself; the host may refuse it.\<close>

definition fileop :: "host \<Rightarrow> event \<Rightarrow> unit act" where
  "fileop h ev = (\<lambda>w.
     if fileop_ok h (trace w) ev
     then (Inr (), w\<lparr>trace := trace w @ [ev]\<rparr>)
     else (Inl (Uncaught OSError), w))"

definition first_line :: "string \<Rightarrow> string" where
  "first_line s = takeWhile (\<lambda>c. c \<noteq> newline) s"

text \<open>\<^verbatim>\<open>result.stdout.split('\n')[0] if result.stdout else "installed"\<close>\<close>

definition version_of_output :: "string \<Rightarrow> string" where
  "version_of_output out = (if out \<noteq> [] then first_line out else ''installed'')"

definition bslash :: char where
  "bslash = CHR 0x5C"

subsection \<open>Finding tools on Windows (lines 181-345)\<close>

definition find_visual_studio :: "host \<Rightarrow> string option act" where
  "find_visual_studio h =
     seq (lift (detect_platform h)) (\<lambda>p.
     if fst p \<noteq> ''Windows'' then ret None
     else
       let vswhere_path =
             joinpath (joinpath (joinpath
               (getenv_or h ''ProgramFiles(x86)'' (''C:'' @ [bslash] @ ''Program Files (x86)''))
               ''Microsoft Visual Studio'') ''Installer'') ''vswhere.exe''
       in
       seq (exists_now h vswhere_path) (\<lambda>there.
       if \<not> there then ret None
       else
         seq (run_proc h [vswhere_path, ''-latest'', ''-requires'',
                           ''Microsoft.VisualStudio.Component.VC.Tools.x86.x64'',
                           ''-property'', ''installationPath''] None) (\<lambda>r.
         case r of
           Completed rc out err \<Rightarrow>
             if rc = 0 then
               (let vs_path = strip out in
                seq (exists_now h vs_path) (\<lambda>e.
                if vs_path \<noteq> [] \<and> e then ret (Some vs_path) else ret None))
             else ret None
         | _ \<Rightarrow> ret None)))"

definition find_cmake_windows :: "host \<Rightarrow> string option act" where
  "find_cmake_windows h =
     (if truthy (which h ''cmake'') then ret (which h ''cmake'')
      else
        seq (find_visual_studio h) (\<lambda>vs_path.
        let vs_cmake = joinpath (joinpath (joinpath (joinpath (joinpath (joinpath (joinpath (joinpath
                         (case vs_path of Some v \<Rightarrow> v | None \<Rightarrow> [])
                         ''Common7'') ''IDE'') ''CommonExtensions'') ''Microsoft'') ''CMake'')
                         ''CMake'') ''bin'') ''cmake.exe''
        in
        seq (exists_now h vs_cmake) (\<lambda>e.
        if truthy vs_path \<and> e then ret (Some vs_cmake)
        else first_existing h [''C:/Program Files/CMake/bin/cmake.exe'',
                               ''C:/Program Files (x86)/CMake/bin/cmake.exe''])))"

text \<open>
  One of the two queries of npm: the candidates are tried when the query ends with exit
  code 0 within its five seconds and its output passes the test; anything else is skipped.
\<close>

definition npm_query ::
  "host \<Rightarrow> string list \<Rightarrow> (string \<Rightarrow> bool) \<Rightarrow> (string \<Rightarrow> string list) \<Rightarrow> string option act" where
  "npm_query h argv usable candidates =
     seq (run_proc h argv None) (\<lambda>r.
     case r of
       Completed rc out err \<Rightarrow>
         if rc = 0 \<and> usable (strip out) then first_existing h (candidates (strip out))
         else ret None
     | _ \<Rightarrow> ret None)"

definition find_pnpm_windows :: "host \<Rightarrow> string option act" where
  "find_pnpm_windows h =
     (if truthy (which h ''pnpm'') then ret (which h ''pnpm'')
      else
        seq (npm_query h [''npm'', ''config'', ''get'', ''prefix'']
               (\<lambda>npm_prefix. npm_prefix \<noteq> [] \<and> npm_prefix \<noteq> ''undefined'')
               (\<lambda>npm_prefix.
                  [joinpath (joinpath (joinpath npm_prefix ''node_modules'') ''.bin'') ''pnpm.cmd'',
                   joinpath (joinpath (joinpath npm_prefix ''node_modules'') ''.bin'') ''pnpm'',
                   joinpath npm_prefix ''pnpm.cmd'',
                   joinpath npm_prefix ''pnpm''])) (\<lambda>found1.
        if found1 \<noteq> None then ret found1
        else
        seq (npm_query h [''npm'', ''root'', ''-g'']
               (\<lambda>npm_global. npm_global \<noteq> [])
               (\<lambda>npm_global.
                  [joinpath (joinpath (joinpath (parent h npm_global) ''node_modules'') ''.bin'') ''pnpm.cmd'',
                   joinpath (joinpath (joinpath (parent h npm_global) ''node_modules'') ''.bin'') ''pnpm'',
                   joinpath (joinpath (joinpath (parent h (parent h npm_global)) ''node_modules'')
                     ''.bin'') ''pnpm.cmd''])) (\<lambda>found2.
        if found2 \<noteq> None then ret found2
        else
        seq (let appdata = getenv_or h ''APPDATA'' [] in
             if appdata \<noteq> []
             then first_existing h [joinpath (joinpath appdata ''npm'') ''pnpm.cmd'',
                                    joinpath (joinpath appdata ''npm'') ''pnpm'']
             else ret None) (\<lambda>found3.
        if found3 \<noteq> None then ret found3
        else
          (let program_files = getenv_or h ''ProgramFiles'' ''C:/Program Files'' in
           first_existing h
             [joinpath (joinpath program_files ''nodejs'') ''pnpm.cmd'',
              joinpath (joinpath program_files ''nodejs'') ''pnpm'',
              joinpath (joinpath (joinpath (joinpath (joinpath program_files ''nodejs'')
                ''node_modules'') ''pnpm'') ''bin'') ''pnpm.cmd''])))))"

text \<open>The two environment variables, in order: the first that is set to an existing path.\<close>

definition vcpkg_from_env :: "host \<Rightarrow> (string \<Rightarrow> bool) \<Rightarrow> string option" where
  "vcpkg_from_env h there =
     find (\<lambda>root. root \<noteq> [] \<and> there root)
       (List.map_filter (getenv h) [''VCPKG_ROOT'', ''VCPKG_INSTALLATION_ROOT''])"

definition find_vcpkg_windows :: "host \<Rightarrow> string option act" where
  "find_vcpkg_windows h =
     seq (ask (\<lambda>now. vcpkg_from_env h (path_exists h now))) (\<lambda>from_env.
     case from_env of
       Some root \<Rightarrow> ret (Some root)
     | None \<Rightarrow>
         (case which h ''vcpkg'' of
            Some (c # cs) \<Rightarrow> ret (Some (parent h (c # cs)))
          | _ \<Rightarrow>
            seq (find_visual_studio h) (\<lambda>vs_path.
            let vs_vcpkg = joinpath (joinpath (case vs_path of Some v \<Rightarrow> v | None \<Rightarrow> []) ''VC'') ''vcpkg'' in
            seq (exists_now h vs_vcpkg) (\<lambda>e1.
            seq (exists_now h (joinpath vs_vcpkg ''vcpkg.exe'')) (\<lambda>e2.
            if truthy vs_path \<and> e1 \<and> e2 then ret (Some vs_vcpkg)
            else
              ask (\<lambda>now.
                find (\<lambda>path. path_exists h now path \<and> path_exists h now (joinpath path ''vcpkg.exe''))
                  ([''C:/vcpkg'', ''C:/tools/vcpkg'', expanduser h ''~/vcpkg'']
                   @ (case getenv h ''USERPROFILE'' of
                        Some (c # cs) \<Rightarrow> [joinpath (c # cs) ''vcpkg'']
                      | _ \<Rightarrow> [])
                   @ [joinpath (getenv_or h ''ProgramFiles'' ''C:/Program Files'') ''vcpkg''])))))))"

subsection \<open>check\_tool, check\_vcpkg, check\_prerequisites (lines 347-480)\<close>

text \<open>
  The body of each \<^verbatim>\<open>try\<close> in \<^verbatim>\<open>check_tool\<close>: run the version probe with
  captured output and \<^verbatim>\<open>check=True\<close>. The bare \<^verbatim>\<open>except\<close> turns every
  other outcome (a non-zero exit code, no such file, a refusal) into "no version".
\<close>

definition probe :: "host \<Rightarrow> string list \<Rightarrow> string option act" where
  "probe h argv =
     seq (run_proc h argv None) (\<lambda>r.
     case r of
       Completed rc out err \<Rightarrow> if rc = 0 then ret (Some (version_of_output out)) else ret None
     | _ \<Rightarrow> ret None)"

definition set_CMAKE_PATH :: "string \<Rightarrow> unit act" where
  "set_CMAKE_PATH p = (\<lambda>w. (Inr (), w\<lparr>CMAKE_PATH := p\<rparr>))"

definition set_PNPM_PATH :: "string \<Rightarrow> unit act" where
  "set_PNPM_PATH p = (\<lambda>w. (Inr (), w\<lparr>PNPM_PATH := p\<rparr>))"

text \<open>Lines 387-405: the standard check, also the fallback for pnpm on Windows.\<close>

definition standard_check :: "host \<Rightarrow> string \<Rightarrow> string list \<Rightarrow> (bool \<times> string) act" where
  "standard_check h name command =
     (case command of
        [] \<Rightarrow> raise (Uncaught IndexError)
      | c0 # rest \<Rightarrow>
          (case which h c0 of
             None \<Rightarrow> ret (False, [])
           | Some tool_path \<Rightarrow>
               if tool_path = [] then ret (False, [])
               else
                 seq (probe h (tool_path # rest)) (\<lambda>v.
                 case v of
                   None \<Rightarrow> ret (False, [])
                 | Some version \<Rightarrow>
                     seq (if name = ''pnpm'' then set_PNPM_PATH tool_path else ret ()) (\<lambda>_.
                     ret (True, version)))))"

definition check_tool :: "host \<Rightarrow> string \<Rightarrow> string list \<Rightarrow> (bool \<times> string) act" where
  "check_tool h name command =
     seq (lift (detect_platform h)) (\<lambda>pf.
     if name = ''CMake'' \<and> fst pf = ''Windows'' then
       seq (find_cmake_windows h) (\<lambda>found.
       case found of
         None \<Rightarrow> ret (False, [])
       | Some cmake_path \<Rightarrow>
           if cmake_path = [] then ret (False, [])
           else
             seq (probe h [cmake_path, ''--version'']) (\<lambda>v.
             case v of
               None \<Rightarrow> ret (False, [])
             | Some version \<Rightarrow> seq (set_CMAKE_PATH cmake_path) (\<lambda>_. ret (True, version))))
     else if name = ''pnpm'' \<and> fst pf = ''Windows'' then
       seq (find_pnpm_windows h) (\<lambda>found.
       case found of
         None \<Rightarrow> standard_check h name command
       | Some pnpm_path \<Rightarrow>
           if pnpm_path = [] then standard_check h name command
           else
             seq (probe h [pnpm_path, ''--version'']) (\<lambda>v.
             case v of
               None \<Rightarrow> standard_check h name command
             | Some version \<Rightarrow> seq (set_PNPM_PATH pnpm_path) (\<lambda>_. ret (True, version))))
     else standard_check h name command)"

definition check_vcpkg :: "host \<Rightarrow> string option act" where
  "check_vcpkg h =
     seq (lift (detect_platform h)) (\<lambda>pf.
     if fst pf = ''Windows'' then find_vcpkg_windows h
     else
       seq (ask (\<lambda>now. vcpkg_from_env h (path_isdir h now))) (\<lambda>from_env.
       case from_env of
         Some root \<Rightarrow> ret (Some root)
       | None \<Rightarrow>
           (case which h ''vcpkg'' of
              Some (c # cs) \<Rightarrow> ret (Some (parent h (c # cs)))
            | _ \<Rightarrow> ret None)))"

text \<open>The loop of lines 439-443: one row per tool, in the order of the list.\<close>

fun check_tools :: "host \<Rightarrow> (string \<times> string list) list \<Rightarrow> (string \<times> bool \<times> string) list act" where
  "check_tools h [] = ret []"
| "check_tools h (t # ts) =
     seq (check_tool h (fst t) (snd t)) (\<lambda>r.
     seq (check_tools h ts) (\<lambda>rs.
     ret ((fst t, fst r, snd r) # rs)))"

definition required_tools :: "bool \<Rightarrow> (string \<times> string list) list" where
  "required_tools skip_app =
     [(''CMake'', [''cmake'', ''--version'']), (''Ninja'', [''ninja'', ''--version''])]
     @ (if \<not> skip_app then [(''pnpm'', [''pnpm'', ''--version''])] else [])"

text \<open>Lines 428-452: the rows of the status table (\<^verbatim>\<open>results\<close>).\<close>

definition collect_results :: "host \<Rightarrow> bool \<Rightarrow> (string \<times> bool \<times> string) list act" where
  "collect_results h skip_app =
     seq (check_tools h (required_tools skip_app)) (\<lambda>results.
     seq (check_vcpkg h) (\<lambda>vcpkg_root.
     case vcpkg_root of
       None \<Rightarrow> ret (results @ [(''vcpkg'', False, ''not found'')])
     | Some root \<Rightarrow>
         if root = [] then ret (results @ [(''vcpkg'', False, ''not found'')])
         else seq (emit (SetEnv ''VCPKG_ROOT'' root)) (\<lambda>_.
              ret (results @ [(''vcpkg'', True, root)]))))"

definition emits :: "event list \<Rightarrow> unit act" where
  "emits evs = (\<lambda>w. (Inr (), w\<lparr>trace := trace w @ evs\<rparr>))"

text \<open>Lines 456-468: a row of the table and, under it, the version or path when shown.\<close>

definition row_event :: "bool \<Rightarrow> string \<Rightarrow> string \<times> bool \<times> string \<Rightarrow> event" where
  "row_event verbose system_name r =
     (case r of (name, ok, info) \<Rightarrow>
        ToolRow name ok
          (if ok \<and> (name = ''CMake'' \<or> name = ''Ninja'' \<or> name = ''pnpm''
                     \<or> (name = ''vcpkg'' \<and> (verbose \<or> system_name = ''Windows'')))
           then info else []))"

definition check_prerequisites :: "host \<Rightarrow> bool \<Rightarrow> unit act" where
  "check_prerequisites h skip_app =
     seq (collect_results h skip_app) (\<lambda>results.
     seq (lift (detect_platform h)) (\<lambda>pf.
     seq (get VERBOSE) (\<lambda>verbose.
     seq (emits (map (row_event verbose (fst pf)) results)) (\<lambda>_.
     if \<not> list_all (\<lambda>r. fst (snd r)) results then
       seq (if fst pf = ''Windows'' then emit WindowsTips else ret ()) (\<lambda>_.
       print_error ''Missing prerequisites - install them and try again'')
     else ret ()))))"

subsection \<open>run\_command and its error report (lines 137-167, 482-510)\<close>

text \<open>\<^verbatim>\<open>s.split(sep)\<close> for a separator of one character.\<close>

fun split_on :: "char \<Rightarrow> string \<Rightarrow> string list" where
  "split_on sep [] = [[]]"
| "split_on sep (c # cs) =
     (if c = sep then [] # split_on sep cs
      else (case split_on sep cs of
              [] \<Rightarrow> [[c]]
            | f # fs \<Rightarrow> (c # f) # fs))"

text \<open>\<^verbatim>\<open>" ".join(words)\<close>\<close>

fun join_words :: "string list \<Rightarrow> string" where
  "join_words [] = []"
| "join_words [x] = x"
| "join_words (x # y # ys) = x @ '' '' @ join_words (y # ys)"

text \<open>\<^verbatim>\<open>c.lower()\<close> for a code point below 256.\<close>

definition lower_char :: "char \<Rightarrow> char" where
  "lower_char c = (let n = (of_char c :: nat) in
     if (65 \<le> n \<and> n \<le> 90) \<or> (192 \<le> n \<and> n \<le> 222 \<and> n \<noteq> 215) then char_of (n + 32) else c)"

text \<open>\<^verbatim>\<open>kw in s\<close>\<close>

fun contains :: "string \<Rightarrow> string \<Rightarrow> bool" where
  "contains kw [] = (kw = [])"
| "contains kw (c # cs) = (take (length kw) (c # cs) = kw \<or> contains kw cs)"

definition flagged :: "string \<Rightarrow> bool" where
  "flagged line = (let l = map lower_char line in
     contains ''error'' l \<or> contains ''failed'' l \<or> contains ''fatal'' l)"

definition print_command_error :: "string list \<Rightarrow> int \<Rightarrow> string \<Rightarrow> string \<Rightarrow> unit act" where
  "print_command_error cmd exit_code output description =
     seq (get VERBOSE) (\<lambda>verbose.
     if output \<noteq> [] \<and> \<not> verbose then
       (let lines = split_on newline (strip output);
            display_lines = drop (length lines - 25) lines
        in emit (CommandError cmd exit_code description
                   (map (\<lambda>line. (flagged line, line)) display_lines) (length lines - 25)))
     else emit (CommandError cmd exit_code description [] 0))"

text \<open>Line 488-489: on Windows the bare name pnpm gives way to the path found for it.\<close>

definition resolve_pnpm :: "string \<Rightarrow> string \<Rightarrow> string list \<Rightarrow> string list" where
  "resolve_pnpm system_name pnpm_path cmd =
     (case cmd of
        [] \<Rightarrow> cmd
      | c0 # rest \<Rightarrow>
          if c0 = ''pnpm'' \<and> system_name = ''Windows'' \<and> pnpm_path \<noteq> ''pnpm''
          then pnpm_path # rest else cmd)"

definition run_command :: "host \<Rightarrow> string list \<Rightarrow> string option \<Rightarrow> string \<Rightarrow> (bool \<times> string) act" where
  "run_command h cmd0 cwd description =
     seq (lift (detect_platform h)) (\<lambda>pf.
     seq (get PNPM_PATH) (\<lambda>pnpm_path.
     seq (get VERBOSE) (\<lambda>verbose.
     let cmd = resolve_pnpm (fst pf) pnpm_path cmd0 in
     seq (if verbose then emit (LogDim (''$ '' @ join_words cmd)) else ret ()) (\<lambda>_.
     seq (run_proc h cmd cwd) (\<lambda>r.
     case r of
       Completed rc out err \<Rightarrow>
         (let output = (if verbose then [] else out @ err) in
          if rc = 0 then ret (True, output)
          else seq (print_command_error cmd rc output description) (\<lambda>_. ret (False, output)))
     | NoSuchFile \<Rightarrow>
         (case cmd of
            [] \<Rightarrow> raise (Uncaught IndexError)
          | c0 # _ \<Rightarrow> print_error (''Command not found: '' @ c0))
     | TimedOut \<Rightarrow> raise (Uncaught TimeoutExpired)
     | Refused \<Rightarrow> raise (Uncaught OSError))))))"

subsection \<open>The stages (lines 512-839)\<close>

text \<open>
  The pattern around every build command: a spinner is started, the command runs, and the
  spinner is stopped with a check mark or with a red cross.
\<close>

definition spun_command :: "host \<Rightarrow> string \<Rightarrow> string list \<Rightarrow> string option \<Rightarrow> string \<Rightarrow> bool act" where
  "spun_command h msg cmd cwd description =
     seq (start (Spinner msg)) (\<lambda>sp.
     seq (run_command h cmd cwd description) (\<lambda>res.
     if fst res then seq (stop CHECK GREEN sp) (\<lambda>_. ret True)
     else seq (stop CROSS RED sp) (\<lambda>_. ret False)))"

definition build_dir_of :: "string \<Rightarrow> string \<Rightarrow> string" where
  "build_dir_of project_root preset =
     joinpath (joinpath project_root ''engine'')
       (if contains ''dev'' preset then ''build'' else ''build-release'')"

definition build_type_of :: "string \<Rightarrow> string" where
  "build_type_of preset = (if contains ''dev'' preset then ''Debug'' else ''Release'')"

definition build_engine :: "host \<Rightarrow> string \<Rightarrow> bool \<Rightarrow> bool \<Rightarrow> string \<Rightarrow> string option act" where
  "build_engine h preset clean run_tests project_root =
     (let engine_dir = joinpath project_root ''engine'';
          build_dir = build_dir_of project_root preset;
          build_type = build_type_of preset
      in
      seq (emits [LogDim (''Build type: '' @ build_type), LogDim (''Preset: '' @ preset)]) (\<lambda>_.
      seq (exists_now h build_dir) (\<lambda>there.
      seq (if clean \<and> there then
             seq (start (Spinner ''Cleaning build directory'')) (\<lambda>sp.
             seq (fileop h (Rmtree build_dir)) (\<lambda>_.
             seq (stop CHECK GREEN sp) (\<lambda>_. ret ())))
           else ret ()) (\<lambda>_.
      seq (get CMAKE_PATH) (\<lambda>cmake.
      seq (spun_command h ''Configuring CMake''
             ([cmake, ''--preset'', preset]
              @ (if run_tests then [''-DVAYU_BUILD_TESTS=ON''] else []))
             (Some engine_dir) ''CMake configuration'') (\<lambda>configured.
      if \<not> configured then ret None
      else
      seq (spun_command h (''Building '' @ build_type)
             [cmake, ''--build'', ''--preset'', preset]
             (Some engine_dir) ''Build'') (\<lambda>built.
      if \<not> built then ret None
      else
      seq (lift (detect_platform h)) (\<lambda>pf.
      let engine_binary =
            joinpath build_dir
              (if fst pf = ''Windows'' then build_type @ ''/vayu-engine.exe'' else ''vayu-engine'')
      in
      seq (exists_now h engine_binary) (\<lambda>e.
      if \<not> e then print_error (''Binary not found: '' @ engine_binary)
      else if run_tests then
        seq (spun_command h ''Running tests'' [''ctest'', ''--preset'', preset]
               (Some engine_dir) ''Unit tests'') (\<lambda>passed.
        if passed then ret (Some engine_binary) else ret None)
      else ret (Some engine_binary))))))))))"

text \<open>An outcome of \<^verbatim>\<open>subprocess.run\<close> without \<^verbatim>\<open>check\<close>: the exit code and the output, or the exception.\<close>

definition completed :: "proc_result \<Rightarrow> (int \<times> string) act" where
  "completed r =
     (case r of
        Completed rc out err \<Rightarrow> ret (rc, out @ err)
      | NoSuchFile \<Rightarrow> raise (Uncaught FileNotFoundError)
      | TimedOut \<Rightarrow> raise (Uncaught TimeoutExpired)
      | Refused \<Rightarrow> raise (Uncaught OSError))"

definition run_tests_only :: "host \<Rightarrow> string \<Rightarrow> string \<Rightarrow> bool act" where
  "run_tests_only h preset project_root =
     (let engine_dir = joinpath project_root ''engine'';
          build_dir = build_dir_of project_root preset;
          test_cmd = [''ctest'', ''--preset'', preset, ''--output-on-failure'']
      in
      seq (exists_now h build_dir) (\<lambda>there.
      if \<not> there then
        print_error (''Build directory not found: '' @ build_dir @ [newline]
                     @ ''Run a build first with: python build.py -e -t'')
      else
      seq (lift (detect_platform h)) (\<lambda>pf.
      let test_binary =
            (if fst pf = ''Windows''
             then joinpath (joinpath build_dir (build_type_of preset)) ''vayu_tests.exe''
             else joinpath build_dir ''vayu_tests'')
      in
      seq (exists_now h test_binary) (\<lambda>built.
      if \<not> built then
        print_error (''Tests not found. Build with tests first:'' @ [newline]
                     @ ''python build.py -e -t'')
      else
      seq (emits [LogDim (''Build directory: '' @ build_dir), LogDim (''Preset: '' @ preset)]) (\<lambda>_.
      seq (start (Spinner ''Running tests'')) (\<lambda>sp.
      seq (get VERBOSE) (\<lambda>verbose.
        (if verbose then
           seq (stop CHECK GREEN sp) (\<lambda>_.
           seq (emit (LogDim (''$ '' @ join_words test_cmd))) (\<lambda>_.
           seq (run_proc h test_cmd (Some engine_dir)) (\<lambda>r.
           seq (completed r) (\<lambda>res. ret (fst res = 0)))))
         else
           seq (run_proc h test_cmd (Some engine_dir)) (\<lambda>r.
           seq (completed r) (\<lambda>res.
           if fst res = 0 then
             seq (stop CHECK GREEN sp) (\<lambda>_.
             seq (case find (\<lambda>line. contains ''tests passed'' (map lower_char line))
                         (split_on newline (snd res)) of
                    None \<Rightarrow> ret ()
                  | Some line \<Rightarrow> emit (TestsPassed (strip line))) (\<lambda>_. ret True))
           else
             seq (stop CROSS RED sp) (\<lambda>_.
             seq (emit (TestsFailed
                    (map (\<lambda>line. (flagged line, line))
                       (filter (\<lambda>line. flagged line \<or> strip line \<noteq> [])
                          (split_on newline (strip (snd res))))))) (\<lambda>_. ret False))))))))))))"

fun do_all :: "host \<Rightarrow> event list \<Rightarrow> unit act" where
  "do_all h [] = ret ()"
| "do_all h (e # es) = seq (fileop h e) (\<lambda>_. do_all h es)"

text \<open>\<^verbatim>\<open>if p.exists(): shutil.copy(p, q)\<close>\<close>

definition copy_if_exists :: "host \<Rightarrow> string \<Rightarrow> string \<Rightarrow> unit act" where
  "copy_if_exists h p q =
     seq (exists_now h p) (\<lambda>e. if e then fileop h (Copy p q) else ret ())"

definition setup_icons :: "host \<Rightarrow> string \<Rightarrow> unit act" where
  "setup_icons h project_root =
     (let icon_png_dir = joinpath (joinpath project_root ''shared'') ''icon_png'';
          icon_ico_dir = joinpath (joinpath project_root ''shared'') ''icon_ico'';
          build_dir = joinpath (joinpath project_root ''app'') ''build'';
          icon_set_dir = joinpath build_dir ''icons''
      in
      seq (start (Spinner ''Setting up icons'')) (\<lambda>sp.
      seq (fileop h (Mkdir build_dir)) (\<lambda>_.
      seq (copy_if_exists h (joinpath icon_png_dir ''vayu_icon_256x256.png'')
             (joinpath build_dir ''icon.png'')) (\<lambda>_.
      seq (copy_if_exists h (joinpath icon_ico_dir ''vayu_icon_256x256.ico'')
             (joinpath build_dir ''icon.ico'')) (\<lambda>_.
      seq (copy_if_exists h (joinpath icon_png_dir ''vayu_icon_512x512.png'')
             (joinpath build_dir ''icon.png'')) (\<lambda>_.
      seq (fileop h (Mkdir icon_set_dir)) (\<lambda>_.
      seq (exists_now h icon_png_dir) (\<lambda>e.
      seq (ask (\<lambda>now. glob h now icon_png_dir ''*.png'')) (\<lambda>png_files.
      seq (if e then do_all h (map (\<lambda>png_file. Copy png_file icon_set_dir) png_files)
           else ret ()) (\<lambda>_.
      seq (stop CHECK GREEN sp) (\<lambda>_. ret ())))))))))))"

text \<open>Lines 755-776: the engine binary goes into the resources of the application.\<close>

definition copy_engine_binary :: "host \<Rightarrow> string \<Rightarrow> string \<Rightarrow> unit act" where
  "copy_engine_binary h app_dir engine_binary =
     (let resources_dir = joinpath (joinpath (joinpath app_dir ''build'') ''resources'') ''bin'' in
      seq (start (Spinner ''Copying engine binary'')) (\<lambda>sp.
      seq (fileop h (Mkdir resources_dir)) (\<lambda>_.
      seq (lift (detect_platform h)) (\<lambda>pf.
      let target_name = (if fst pf = ''Windows'' then ''vayu-engine.exe'' else ''vayu-engine'') in
      seq (ask (\<lambda>now. glob h now (parent h engine_binary) ''*.dll'')) (\<lambda>dlls.
      seq (if fst pf = ''Windows''
           then do_all h (map (\<lambda>dll. Copy dll resources_dir) dlls)
           else ret ()) (\<lambda>_.
      seq (fileop h (Copy engine_binary (joinpath resources_dir target_name))) (\<lambda>_.
      seq (fileop h (Chmod (joinpath resources_dir target_name))) (\<lambda>_.
      seq (stop CHECK GREEN sp) (\<lambda>_. ret ())))))))))"

definition build_app :: "host \<Rightarrow> bool \<Rightarrow> string option \<Rightarrow> string \<Rightarrow> bool act" where
  "build_app h dev_mode engine_binary project_root =
     (let app_dir = joinpath project_root ''app'' in
      seq (exists_now h app_dir) (\<lambda>there.
      if \<not> there then print_error (''App directory not found: '' @ app_dir)
      else
      seq (exists_now h (joinpath app_dir ''node_modules'')) (\<lambda>installed.
      seq (if \<not> installed
           then spun_command h ''Installing dependencies'' [''pnpm'', ''install'']
                  (Some app_dir) ''pnpm install''
           else ret True) (\<lambda>ok1.
      if \<not> ok1 then ret False
      else
      seq (setup_icons h project_root) (\<lambda>_.
      seq (spun_command h ''Compiling TypeScript'' [''pnpm'', ''run'', ''electron:compile'']
             (Some app_dir) ''TypeScript compilation'') (\<lambda>ok2.
      if \<not> ok2 then ret False
      else if dev_mode then ret True
      else
      seq (spun_command h ''Building React app'' [''pnpm'', ''run'', ''build'']
             (Some app_dir) ''React build'') (\<lambda>ok3.
      if \<not> ok3 then ret False
      else
      seq (case engine_binary of
             None \<Rightarrow> ret ()
           | Some b \<Rightarrow>
               seq (exists_now h b) (\<lambda>e.
               if e then copy_engine_binary h app_dir b else ret ())) (\<lambda>_.
      spun_command h ''Packaging application'' [''pnpm'', ''run'', ''electron:pack'']
        (Some app_dir) ''Electron packaging''))))))))"

definition get_artifacts ::
  "host \<Rightarrow> bool \<Rightarrow> bool \<Rightarrow> bool \<Rightarrow> string option \<Rightarrow> string \<Rightarrow> (string \<times> string) list act" where
  "get_artifacts h dev_mode skip_engine skip_app engine_binary project_root =
     (let release_dir = joinpath (joinpath project_root ''app'') ''release'';
          found = (\<lambda>label pat.
                     ask (\<lambda>now. map (\<lambda>f. (label, relative_to_cwd h f)) (glob h now release_dir pat)))
      in
      seq (case engine_binary of
             None \<Rightarrow> ret []
           | Some b \<Rightarrow>
               seq (exists_now h b) (\<lambda>e.
               if \<not> skip_engine \<and> e then ret [(''Engine'', relative_to_cwd h b)] else ret [])) (\<lambda>engine.
      seq (exists_now h release_dir) (\<lambda>released.
      if \<not> skip_app \<and> \<not> dev_mode \<and> released then
        seq (lift (detect_platform h)) (\<lambda>pf.
        if fst pf = ''Windows'' then
          seq (found ''Installer'' ''*.exe'') (\<lambda>xs. ret (engine @ xs))
        else if fst pf = ''Linux'' then
          seq (found ''AppImage'' ''*.AppImage'') (\<lambda>xs.
          seq (found ''Debian'' ''*.deb'') (\<lambda>ys. ret (engine @ xs @ ys)))
        else if fst pf = ''macOS'' then
          seq (found ''DMG'' ''*.dmg'') (\<lambda>xs. ret (engine @ xs))
        else ret engine)
      else ret engine)))"

subsection \<open>main (lines 981-1134)\<close>

text \<open>The parsed command line (\<^verbatim>\<open>args\<close>).\<close>

record args =
  arg_dev :: bool
  arg_prod :: bool
  arg_engine_only :: bool
  arg_app_only :: bool
  arg_clean :: bool
  arg_tests :: bool
  arg_test_only :: bool
  arg_bump_version :: "string option"
  arg_dry_run :: bool
  arg_verbose :: bool

text \<open>Line 1027.\<close>

definition dev_mode_of :: "args \<Rightarrow> bool" where
  "dev_mode_of a = (arg_dev a \<or> \<not> arg_prod a)"

text \<open>
  The \<^verbatim>\<open>try\<close> of lines 1081-1134: an exception that reaches it is reported through
  \<^verbatim>\<open>print_error\<close>; \<^verbatim>\<open>sys.exit\<close> passes through. An interrupt from the keyboard
  is not modelled.
\<close>

definition guarded :: "'a act \<Rightarrow> 'a act" where
  "guarded m = (\<lambda>w.
     case m w of
       (Inl (Uncaught e), w') \<Rightarrow> (Inl (Reported e), w')
     | r \<Rightarrow> r)"

text \<open>Lines 1083-1124: the stages, in order.\<close>

definition pipeline ::
  "host \<Rightarrow> args \<Rightarrow> bool \<Rightarrow> bool \<Rightarrow> bool \<Rightarrow> string \<Rightarrow> string \<Rightarrow> nat \<Rightarrow> string \<Rightarrow> unit act" where
  "pipeline h a dev_mode skip_engine skip_app system_name preset total_steps project_root =
     seq (emit (Step 1 total_steps ''Prerequisites'')) (\<lambda>_.
     seq (check_prerequisites h skip_app) (\<lambda>_.
     seq (if \<not> skip_engine then
            seq (emit (Step 2 total_steps ''Engine'')) (\<lambda>_.
            seq (build_engine h preset (arg_clean a) (arg_tests a) project_root) (\<lambda>built.
            if built = None then raise Exit1 else ret built))
          else
            (let build_dir = joinpath (joinpath project_root ''engine'')
                               (if dev_mode then ''build'' else ''build-release'');
                 engine_binary =
                   (if system_name = ''Windows''
                    then joinpath (joinpath build_dir (if dev_mode then ''Debug'' else ''Release''))
                           ''vayu-engine.exe''
                    else joinpath build_dir ''vayu-engine'')
             in seq (exists_now h engine_binary) (\<lambda>e.
                seq (if e then emit UsingExisting else ret ()) (\<lambda>_.
                ret (Some engine_binary))))) (\<lambda>engine_binary.
     seq (if \<not> skip_app then
            seq (emit (Step (if skip_engine then 2 else 3) total_steps ''Application'')) (\<lambda>_.
            seq (build_app h dev_mode engine_binary project_root) (\<lambda>ok.
            if \<not> ok then raise Exit1 else ret ()))
          else ret ()) (\<lambda>_.
     seq (get_artifacts h dev_mode skip_engine skip_app engine_binary project_root) (\<lambda>artifacts.
     emit (Success artifacts))))))"

definition set_VERBOSE :: "bool \<Rightarrow> unit act" where
  "set_VERBOSE b = (\<lambda>w. (Inr (), w\<lparr>VERBOSE := b\<rparr>))"

definition main :: "host \<Rightarrow> args \<Rightarrow> string \<Rightarrow> unit act" where
  "main h a project_root =
     seq (set_VERBOSE (arg_verbose a)) (\<lambda>_.
     (case arg_bump_version a of
        Some (c # cs) \<Rightarrow> bump_version h (c # cs) project_root (arg_dry_run a)
      | _ \<Rightarrow>
        (let dev_mode = dev_mode_of a;
             skip_engine = arg_app_only a;
             skip_app = (arg_engine_only a \<or> arg_test_only a)
         in
         if arg_test_only a \<and> arg_tests a then
           print_error ''Cannot use --test-only with -t (tests will run automatically)''
         else if skip_engine \<and> skip_app then
           print_error ''Cannot use -e and -a together''
         else
           seq (lift (detect_platform h)) (\<lambda>pf.
           let system_name = fst pf;
               preset = snd pf @ ''-'' @ (if dev_mode then ''dev'' else ''prod'');
               total_steps = 1 + (if \<not> skip_engine then 1 else 0) + (if \<not> skip_app then 1 else 0)
           in
           if arg_test_only a then
             seq (emit (Step 1 1 ''Tests'')) (\<lambda>_.
             seq (run_tests_only h preset project_root) (\<lambda>ok.
             if \<not> ok then raise Exit1 else emit TestsComplete))
           else
             seq (emit (BuildInfo (if dev_mode then ''Development'' else ''Production'')
                          ((if \<not> skip_engine then [''Engine''] else [])
                           @ (if \<not> skip_app then [''App''] else []))
                          system_name (arg_verbose a))) (\<lambda>_.
             guarded (pipeline h a dev_mode skip_engine skip_app system_name preset
                        total_steps project_root))))))"

text \<open>The exit status of the process.\<close>

definition exit_code :: "(abort + unit) \<times> world \<Rightarrow> nat" where
  "exit_code r = (case fst r of Inl _ \<Rightarrow> 1 | Inr _ \<Rightarrow> 0)"

text \<open>The state in which the script starts: nothing done yet, the globals as lines 21-23 set them.\<close>

definition initial :: "(string \<rightharpoonup> textfile) \<Rightarrow> world" where
  "initial fs = \<lparr>files = fs, trace = [], VERBOSE = False, CMAKE_PATH = ''cmake'', PNPM_PATH = ''pnpm''\<rparr>"

subsection \<open>Reading a trace; the shape of a version as the specification words it\<close>

text \<open>The writes of text files recorded in a trace, in order, and the paths written.\<close>

fun writes :: "event list \<Rightarrow> (string \<times> string) list" where
  "writes [] = []"
| "writes (Wrote p s # es) = (p, s) # writes es"
| "writes (e # es) = writes es"

definition written :: "event list \<Rightarrow> string list" where
  "written es = map fst (writes es)"

text \<open>The version transitions displayed (line 920).\<close>

fun shown_transitions :: "event list \<Rightarrow> (string \<times> string) list" where
  "shown_transitions [] = []"
| "shown_transitions (Transition a b # es) = (a, b) # shown_transitions es"
| "shown_transitions (e # es) = shown_transitions es"

text \<open>The child processes started, with their outcomes.\<close>

fun spawned :: "event list \<Rightarrow> (string list \<times> proc_result) list" where
  "spawned [] = []"
| "spawned (Spawn argv cwd r # es) = (argv, r) # spawned es"
| "spawned (e # es) = spawned es"

text \<open>The error reports of failed commands.\<close>

fun command_errors :: "event list \<Rightarrow> event list" where
  "command_errors [] = []"
| "command_errors (CommandError c rc d ls n # es) = CommandError c rc d ls n # command_errors es"
| "command_errors (e # es) = command_errors es"

text \<open>The stages announced (\<^verbatim>\<open>print_step\<close>).\<close>

fun steps :: "event list \<Rightarrow> string list" where
  "steps [] = []"
| "steps (Step i n title # es) = title # steps es"
| "steps (e # es) = steps es"

text \<open>The five files of a version bump, in the order in which lines 930-963 rewrite them.\<close>

definition targets :: "string \<Rightarrow> string list" where
  "targets project_root =
     [version_file project_root, engine_cmake project_root, engine_version_hpp project_root,
      engine_vcpkg_json project_root, app_package_json project_root]"

text \<open>
  The specification's "exact shape X.Y.Z": three fields separated by dots, each a
  non-empty run of digits, and nothing else.
\<close>

definition shape_xyz :: "string \<Rightarrow> bool" where
  "shape_xyz s =
     (case split_on CHR ''.'' s of
        [a, b, c] \<Rightarrow> a \<noteq> [] \<and> b \<noteq> [] \<and> c \<noteq> []
                     \<and> list_all is_digit a \<and> list_all is_digit b \<and> list_all is_digit c
      | _ \<Rightarrow> False)"


text \<open>
  A triple for reasoning about actions: from a state satisfying \<open>P\<close>, the action either
  returns \<open>x\<close> in a state satisfying \<open>Q x\<close> or aborts in a state satisfying \<open>E\<close>.
\<close>

definition triple :: "(world \<Rightarrow> bool) \<Rightarrow> 'a act \<Rightarrow> ('a \<Rightarrow> world \<Rightarrow> bool) \<Rightarrow> (world \<Rightarrow> bool) \<Rightarrow> bool" where
  "triple P m Q E = (\<forall>w. P w \<longrightarrow> (case m w of (Inl e, w') \<Rightarrow> E w' | (Inr x, w') \<Rightarrow> Q x w'))"

text \<open>
  After the first \<open>k\<close> files of a bump to \<open>new_version\<close> have been rewritten, starting
  from \<open>w0\<close>: the trace has grown by events whose writes went to the first \<open>k\<close> targets in
  order, every one of these writes is what the file holds now, and the version file (once
  written) holds the new version and a newline.
\<close>

definition bumped :: "string \<Rightarrow> string \<Rightarrow> world \<Rightarrow> nat \<Rightarrow> world \<Rightarrow> bool" where
  "bumped project_root new_version w0 k w =
     (\<exists>new. trace w = trace w0 @ new
        \<and> written new = take k (targets project_root)
        \<and> list_all (\<lambda>ps. files w (fst ps) = Some (TextFile (snd ps) True)) (writes new)
        \<and> (0 < k \<longrightarrow> files w (version_file project_root)
                         = Some (TextFile (new_version @ [newline]) True)))"

text \<open>An action that only ever adds events to the trace.\<close>

definition grows :: "'a act \<Rightarrow> bool" where
  "grows m = (\<forall>w. \<exists>new. trace (snd (m w)) = trace w @ new)"

text \<open>
  An action that only adds events to the trace, and every child process it starts has an
  argv satisfying \<open>P\<close>.
\<close>

definition starts_only :: "(string list \<Rightarrow> bool) \<Rightarrow> 'a act \<Rightarrow> bool" where
  "starts_only P m =
     (\<forall>w. \<exists>new. trace (snd (m w)) = trace w @ new \<and> list_all (\<lambda>a. P (fst a)) (spawned new))"

text \<open>
  The one query that \<^verbatim>\<open>find_visual_studio\<close> puts to the Visual Studio locator
  (lines 190-199): it asks for the installation path, not for a version.
\<close>

definition vswhere_query :: "host \<Rightarrow> string list" where
  "vswhere_query h =
     [joinpath (joinpath (joinpath
        (getenv_or h ''ProgramFiles(x86)'' (''C:'' @ [bslash] @ ''Program Files (x86)''))
        ''Microsoft Visual Studio'') ''Installer'') ''vswhere.exe'',
      ''-latest'', ''-requires'', ''Microsoft.VisualStudio.Component.VC.Tools.x86.x64'',
      ''-property'', ''installationPath'']"

subsection \<open>Example hosts and projects\<close>

text \<open>
  Concrete inputs on which the theorems below are evaluated. \<open>ex_linux\<close> is a Linux machine
  with CMake and Ninja on the PATH, no pnpm, and \<^verbatim>\<open>VCPKG_ROOT\<close> set to a directory;
  its JSON library is cut down to the one document the examples use. A path that runs
  through the file \<^verbatim>\<open>/usr/bin/cmake\<close> cannot be started: the operating system
  answers that a component of the path is not a directory (NotADirectoryError). The limit on
  the digits of a conversion is the interpreter's default.
\<close>

definition ex_linux :: host where
  "ex_linux =
     \<lparr>system = ''Linux'',
      which = (\<lambda>name. if name = ''cmake'' then Some ''/usr/bin/cmake''
                       else if name = ''ninja'' then Some ''/usr/bin/ninja'' else None),
      getenv = (\<lambda>name. if name = ''VCPKG_ROOT'' then Some ''/opt/vcpkg'' else None),
      expanduser = (\<lambda>p. p),
      parent = (\<lambda>p. p),
      path_exists = (\<lambda>tr p. True),
      path_isdir = (\<lambda>tr p. p = ''/opt/vcpkg''),
      glob = (\<lambda>tr d pat. []),
      proc = (\<lambda>tr argv cwd.
                if argv = [''/usr/bin/cmake'', ''--version''] then Completed 0 ''cmake version 3.28.1'' []
                else if argv = [''/usr/bin/ninja'', ''--version''] then Completed 0 ''1.11.1'' []
                else if argv = [''/usr/bin/cmake/ctest'', ''--preset'', ''linux-dev''] then Refused
                else NoSuchFile),
      fileop_ok = (\<lambda>tr ev. True),
      relative_to_cwd = (\<lambda>p. p),
      json_loads = (\<lambda>s. if s = ''{}'' then Some (JObject []) else None),
      json_dumps = (\<lambda>d ind. case d of JObject [(k, JString v)] \<Rightarrow> k @ ''='' @ v | _ \<Rightarrow> []),
      int_max_str_digits = 4300\<rparr>"

text \<open>
  A Windows machine on which pnpm is not on the PATH and the bare name cannot be started;
  npm is not installed either, and the script \<^verbatim>\<open>pnpm.cmd\<close> lies in the npm
  directory under \<^verbatim>\<open>APPDATA\<close>, where it can be started by its path.
\<close>

definition ex_pnpm_cmd :: string where
  "ex_pnpm_cmd = ''C:/Users/dev/AppData/Roaming/npm/pnpm.cmd''"

definition ex_windows :: host where
  "ex_windows =
     ex_linux
       \<lparr>system := ''Windows'',
        which := (\<lambda>name. None),
        getenv := (\<lambda>name. if name = ''APPDATA'' then Some ''C:/Users/dev/AppData/Roaming'' else None),
        path_exists := (\<lambda>tr p. p = ex_pnpm_cmd),
        proc := (\<lambda>tr argv cwd.
                   if argv = [ex_pnpm_cmd, ''--version''] then Completed 0 ''9.1.0'' []
                   else if argv = [ex_pnpm_cmd, ''install''] then Completed 0 ''done'' []
                   else NoSuchFile)\<rparr>"

text \<open>
  The same Windows machine with Visual Studio installed: every path exists, the locator
  answers with the installation path, and vcpkg is neither in the environment nor on the
  PATH.
\<close>

definition ex_windows_vs :: host where
  "ex_windows_vs =
     ex_windows
       \<lparr>path_exists := (\<lambda>tr p. True),
        proc := (\<lambda>tr argv cwd.
                   if argv = vswhere_query ex_windows then Completed 0 ''C:/VS'' []
                   else NoSuchFile)\<rparr>"

text \<open>A project at \<^verbatim>\<open>/r\<close> whose vcpkg.json is not JSON and whose package.json is missing.\<close>

definition ex_files :: "string \<rightharpoonup> textfile" where
  "ex_files =
     [''/r/VERSION'' \<mapsto> TextFile (''1.2.3'' @ [newline]) True,
      ''/r/engine/CMakeLists.txt'' \<mapsto> TextFile ''project(vayu VERSION 1.2.3)'' True,
      ''/r/engine/include/vayu/version.hpp'' \<mapsto> TextFile ''#define VAYU_VERSION_PATCH 3'' True,
      ''/r/engine/vcpkg.json'' \<mapsto> TextFile ''not json'' True]"

text \<open>The same project with a CMakeLists.txt that may not be written.\<close>

definition ex_files_locked :: "string \<rightharpoonup> textfile" where
  "ex_files_locked =
     ex_files(''/r/engine/CMakeLists.txt'' \<mapsto> TextFile ''project(vayu VERSION 1.2.3)'' False)"

text \<open>The same project with both manifests in order.\<close>

definition ex_files_ok :: "string \<rightharpoonup> textfile" where
  "ex_files_ok =
     ex_files(''/r/engine/vcpkg.json'' \<mapsto> TextFile ''{}'' True,
              ''/r/app/package.json'' \<mapsto> TextFile ''{}'' True)"

text \<open>
  A version at the limit of the interpreter: the patch component is 4300 nines, the number
  \<open>10 ^ 4300 - 1\<close>; and a project whose VERSION file holds it.
\<close>

definition ex_nines :: string where
  "ex_nines = replicate 4300 CHR ''9''"

definition ex_nines_value :: nat where
  "ex_nines_value = 10 ^ 4300 - 1"

definition ex_files_nines :: "string \<rightharpoonup> textfile" where
  "ex_files_nines = [''/r/VERSION'' \<mapsto> TextFile (''1.2.'' @ ex_nines) True]"

text \<open>The command line without any flag.\<close>

definition no_flags :: args where
  "no_flags =
     \<lparr>arg_dev = False, arg_prod = False, arg_engine_only = False, arg_app_only = False,
      arg_clean = False, arg_tests = False, arg_test_only = False, arg_bump_version = None,
      arg_dry_run = False, arg_verbose = False\<rparr>"

section \<open>Properties\<close>

subsection \<open>Numbers and their decimal form\<close>

lemma digit_char_is_digit: "d < 10 \<Longrightarrow> is_digit (digit_char d)"
  by (simp add: is_digit_def digit_char_def)

lemma digit_val_digit_char: "d < 10 \<Longrightarrow> digit_val (digit_char d) = d"
  by (simp add: digit_val_def digit_char_def)

lemma decimal_digits: "list_all is_digit (decimal n)"
proof (induction n rule: decimal.induct)
  case (1 n)
  show ?case
  proof (cases "n < 10")
    case True
    then show ?thesis by (subst decimal.simps) (simp add: digit_char_is_digit)
  next
    case False
    with 1 show ?thesis by (subst decimal.simps) (simp add: digit_char_is_digit)
  qed
qed

lemma decimal_nonempty: "decimal n \<noteq> []"
  by (subst decimal.simps) simp

lemma digits_value_snoc: "digits_value (s @ [c]) = 10 * digits_value s + digit_val c"
  by (simp add: digits_value_def)

lemma digits_value_decimal: "digits_value (decimal n) = n"
proof (induction n rule: decimal.induct)
  case (1 n)
  show ?case
  proof (cases "n < 10")
    case True
    then show ?thesis by (subst decimal.simps) (simp add: digits_value_def digit_val_digit_char)
  next
    case False
    with 1 have "digits_value (decimal (n div 10)) = n div 10" by simp
    with False show ?thesis
      by (subst decimal.simps) (simp add: digits_value_snoc digit_val_digit_char)
  qed
qed

text \<open>A number below \<open>10 ^ k\<close> has at most \<open>k\<close> digits, and a string of digits denotes such a number.\<close>

lemma length_decimal_le: "0 < k \<Longrightarrow> n < 10 ^ k \<Longrightarrow> length (decimal n) \<le> k"
proof (induction n arbitrary: k rule: decimal.induct)
  case (1 n)
  show ?case
  proof (cases "n < 10")
    case True
    with 1(2) show ?thesis by (subst decimal.simps) simp
  next
    case False
    with 1(3) have k: "1 < k" by (cases "k = 1") (use 1(2) in auto)
    then obtain j where j: "k = Suc j" "0 < j" by (cases k) auto
    from 1(3) j have "n div 10 < 10 ^ j" by (simp add: less_mult_imp_div_less mult.commute)
    with 1(1) [OF False j(2)] have "length (decimal (n div 10)) \<le> j" by simp
    with False j show ?thesis by (subst decimal.simps) simp
  qed
qed

lemma digit_val_le: "is_digit c \<Longrightarrow> digit_val c \<le> 9"
  unfolding is_digit_def digit_val_def by arith

lemma digits_value_less: "list_all is_digit s \<Longrightarrow> digits_value s < 10 ^ length s"
proof (induction s rule: rev_induct)
  case Nil
  then show ?case by (simp add: digits_value_def)
next
  case (snoc c s)
  then have "digits_value s < 10 ^ length s" "digit_val c \<le> 9" by (simp_all add: digit_val_le)
  then have "10 * digits_value s + digit_val c < 10 * 10 ^ length s" by arith
  then show ?case by (simp add: digits_value_snoc)
qed

lemma length_decimal_digits_value:
  "list_all is_digit s \<Longrightarrow> s \<noteq> [] \<Longrightarrow> length (decimal (digits_value s)) \<le> length s"
  by (rule length_decimal_le) (simp_all add: digits_value_less)

lemma exceeds_limit_mono: "exceeds_limit h m \<Longrightarrow> m \<le> n \<Longrightarrow> exceeds_limit h n"
  by (auto simp: exceeds_limit_def)

lemma exceeds_limit_small: "n \<le> 640 \<Longrightarrow> \<not> exceeds_limit h n"
  by (simp add: exceeds_limit_def str_digits_check_threshold_def)

text \<open>A number that \<^verbatim>\<open>int()\<close> has read from a string of digits can be formatted.\<close>

lemma py_int_py_str:
  assumes "py_int h s = Inr n" "list_all is_digit s" "s \<noteq> []"
  shows "py_str h n = Inr (decimal n)"
proof -
  from assms(1) have n: "n = digits_value s" and ok: "\<not> exceeds_limit h (length s)"
    by (auto simp: py_int_def split: if_splits)
  from length_decimal_digits_value [OF assms(2,3)] ok n
  have "\<not> exceeds_limit h (length (decimal n))" using exceeds_limit_mono by blast
  then show ?thesis by (simp add: py_str_def)
qed

lemma py_str_Inr: "py_str h n = Inr s \<Longrightarrow> s = decimal n \<and> \<not> exceeds_limit h (length (decimal n))"
  by (auto simp: py_str_def split: if_splits)

lemma py_int_decimal: "\<not> exceeds_limit h (length (decimal n)) \<Longrightarrow> py_int h (decimal n) = Inr n"
  by (simp add: py_int_def digits_value_decimal)

lemma takeWhile_digits_stop:
  "list_all is_digit ds \<Longrightarrow> r = [] \<or> \<not> is_digit (hd r) \<Longrightarrow> takeWhile is_digit (ds @ r) = ds"
  by (induction ds) (cases r; auto)+

lemma dropWhile_digits_stop:
  "list_all is_digit ds \<Longrightarrow> r = [] \<or> \<not> is_digit (hd r) \<Longrightarrow> dropWhile is_digit (ds @ r) = r"
  by (induction ds) (cases r; auto)+

lemma eat_digits_run:
  "list_all is_digit ds \<Longrightarrow> ds \<noteq> [] \<Longrightarrow> r = [] \<or> \<not> is_digit (hd r) \<Longrightarrow> eat_digits (ds @ r) = Some r"
  by (simp add: eat_digits_def takeWhile_digits_stop dropWhile_digits_stop)

lemma eat_dot: "eat_lit ''.'' (CHR ''.'' # r) = Some r"
  by (simp add: eat_lit_def)

lemma dot_not_digit: "\<not> is_digit CHR ''.''"
  by (simp add: is_digit_def)

lemma match_version_digits:
  assumes "list_all is_digit a" "a \<noteq> []" "list_all is_digit b" "b \<noteq> []" "list_all is_digit c" "c \<noteq> []"
  shows "match_version (a @ ''.'' @ b @ ''.'' @ c) = Some (a, b, c)"
proof -
  have c: "eat_digits c = Some []" "takeWhile is_digit c = c"
    using eat_digits_run [of c "[]"] takeWhile_digits_stop [of c "[]"] assms by simp_all
  have b: "eat_digits (b @ CHR ''.'' # c) = Some (CHR ''.'' # c)"
     "takeWhile is_digit (b @ CHR ''.'' # c) = b"
    using eat_digits_run [of b "CHR ''.'' # c"] takeWhile_digits_stop [of b "CHR ''.'' # c"] assms
    by (simp_all add: dot_not_digit)
  have a: "eat_digits (a @ CHR ''.'' # b @ CHR ''.'' # c) = Some (CHR ''.'' # b @ CHR ''.'' # c)"
     "takeWhile is_digit (a @ CHR ''.'' # b @ CHR ''.'' # c) = a"
    using eat_digits_run [of a "CHR ''.'' # b @ CHR ''.'' # c"]
       takeWhile_digits_stop [of a "CHR ''.'' # b @ CHR ''.'' # c"] assms
    by (simp_all add: dot_not_digit)
  show ?thesis
    by (simp add: match_version_def a b c eat_dot)
qed

lemma digit_not_space: "is_digit c \<Longrightarrow> \<not> is_space c"
  by (auto simp: is_digit_def is_space_def Let_def)

lemma dropWhile_space_id: "xs \<noteq> [] \<Longrightarrow> \<not> is_space (hd xs) \<Longrightarrow> dropWhile is_space xs = xs"
  by (cases xs) auto

lemma strip_id: 
  assumes "s \<noteq> []" "\<not> is_space (hd s)" "\<not> is_space (last s)" shows "strip s = s"
proof -
  have "dropWhile is_space s = s" using assms dropWhile_space_id by simp
  moreover have "dropWhile is_space (rev s) = rev s"
    using assms dropWhile_space_id [of "rev s"] by (simp add: hd_rev)
  ultimately show ?thesis by (simp add: strip_def)
qed

lemma strip_render:
  assumes "list_all is_digit a" "a \<noteq> []" "list_all is_digit c" "c \<noteq> []"
  shows "strip (a @ ''.'' @ b @ ''.'' @ c) = a @ ''.'' @ b @ ''.'' @ c"
proof (rule strip_id)
  show "a @ ''.'' @ b @ ''.'' @ c \<noteq> []" by simp
  have "is_digit (hd a)" using assms by (cases a) auto
  then show "\<not> is_space (hd (a @ ''.'' @ b @ ''.'' @ c))" using assms by (simp add: digit_not_space)
  have "is_digit (last c)" using assms by (simp add: list_all_iff)
  then show "\<not> is_space (last (a @ ''.'' @ b @ ''.'' @ c))" using assms by (simp add: digit_not_space)
qed

text \<open>A version written as three runs of digits parses to the numbers they denote, within the limit.\<close>

lemma parse_version_digits:
  assumes "list_all is_digit a" "a \<noteq> []" "list_all is_digit b" "b \<noteq> []" "list_all is_digit c" "c \<noteq> []"
  shows "parse_version h (a @ ''.'' @ b @ ''.'' @ c) =
           (if exceeds_limit h (length a) \<or> exceeds_limit h (length b) \<or> exceeds_limit h (length c)
            then Inl (Uncaught ValueError)
            else Inr (digits_value a, digits_value b, digits_value c))"
  unfolding parse_version_def
  by (simp only: strip_render [OF assms(1,2,5,6)] match_version_digits [OF assms] option.case prod.case)
     (simp add: py_int_def and_then_def)

lemma parse_version_render:
  assumes "\<not> exceeds_limit h (length (decimal a))" "\<not> exceeds_limit h (length (decimal b))"
    "\<not> exceeds_limit h (length (decimal c))"
  shows "parse_version h (decimal a @ ''.'' @ decimal b @ ''.'' @ decimal c) = Inr (a, b, c)"
  using assms
  by (simp only: parse_version_digits [OF decimal_digits decimal_nonempty decimal_digits decimal_nonempty
        decimal_digits decimal_nonempty] digits_value_decimal if_False simp_thms)

lemma decimal_0: "decimal 0 = ''0''"
  by code_simp

lemma keywords_do_not_parse:
  "parse_version h ''major'' = Inl (Fatal ''Invalid version format: major (expected: X.Y.Z)'')"
  "parse_version h ''minor'' = Inl (Fatal ''Invalid version format: minor (expected: X.Y.Z)'')"
  "parse_version h ''patch'' = Inl (Fatal ''Invalid version format: patch (expected: X.Y.Z)'')"
  by (simp_all add: parse_version_def match_version_def strip_def eat_digits_def is_digit_def is_space_def)

subsection \<open>The shape X.Y.Z\<close>

lemma split_on_nonempty: "split_on sep s \<noteq> []"
  by (induction s) (auto split: list.splits)

lemma split_on_no_sep: "sep \<notin> set a \<Longrightarrow> split_on sep a = [a]"
  by (induction a) auto

lemma split_on_field: "sep \<notin> set a \<Longrightarrow> split_on sep (a @ sep # r) = a # split_on sep r"
  by (induction a) (auto simp: split_on_nonempty split: list.splits)

lemma split_on_single: "split_on sep s = [a] \<Longrightarrow> s = a"
  by (induction s arbitrary: a) (auto simp: split_on_nonempty split: if_splits list.splits)

lemma split_on_more:
  "split_on sep s = a # b # r \<Longrightarrow> \<exists>s'. s = a @ sep # s' \<and> split_on sep s' = b # r"
  by (induction s arbitrary: a) (auto split: if_splits list.splits)

lemma digits_no_dot: "list_all is_digit a \<Longrightarrow> CHR ''.'' \<notin> set a"
  using dot_not_digit by (auto simp: list_all_iff)

lemma shape_xyz_iff:
  "shape_xyz s \<longleftrightarrow> (\<exists>a b c. s = a @ ''.'' @ b @ ''.'' @ c \<and> a \<noteq> [] \<and> b \<noteq> [] \<and> c \<noteq> []
       \<and> list_all is_digit a \<and> list_all is_digit b \<and> list_all is_digit c)"
proof
  assume "shape_xyz s"
  then obtain a b c where sp: "split_on CHR ''.'' s = [a, b, c]"
    and d: "a \<noteq> []" "b \<noteq> []" "c \<noteq> []" "list_all is_digit a" "list_all is_digit b" "list_all is_digit c"
    by (auto simp: shape_xyz_def split: list.splits)
  from split_on_more [OF sp] obtain s1 where s1: "s = a @ CHR ''.'' # s1" "split_on CHR ''.'' s1 = [b, c]"
    by blast
  from split_on_more [OF s1(2)] obtain s2 where s2: "s1 = b @ CHR ''.'' # s2" "split_on CHR ''.'' s2 = [c]"
    by blast
  from split_on_single [OF s2(2)] s1(1) s2(1) have "s = a @ ''.'' @ b @ ''.'' @ c" by simp
  with d show "\<exists>a b c. s = a @ ''.'' @ b @ ''.'' @ c \<and> a \<noteq> [] \<and> b \<noteq> [] \<and> c \<noteq> []
       \<and> list_all is_digit a \<and> list_all is_digit b \<and> list_all is_digit c" by blast
next
  assume "\<exists>a b c. s = a @ ''.'' @ b @ ''.'' @ c \<and> a \<noteq> [] \<and> b \<noteq> [] \<and> c \<noteq> []
       \<and> list_all is_digit a \<and> list_all is_digit b \<and> list_all is_digit c"
  then obtain a b c where s: "s = a @ CHR ''.'' # b @ CHR ''.'' # c"
    and d: "a \<noteq> []" "b \<noteq> []" "c \<noteq> []" "list_all is_digit a" "list_all is_digit b" "list_all is_digit c"
    by auto
  have "split_on CHR ''.'' s = [a, b, c]"
    using d by (simp add: s split_on_field split_on_no_sep digits_no_dot)
  with d show "shape_xyz s" by (simp add: shape_xyz_def)
qed

lemma eat_digits_Some:
  "eat_digits s = Some r \<Longrightarrow> s = takeWhile is_digit s @ r \<and> takeWhile is_digit s \<noteq> []
     \<and> list_all is_digit (takeWhile is_digit s)"
  by (auto simp: eat_digits_def list_all_iff split: if_splits dest: set_takeWhileD)

lemma eat_dot_Some: "eat_lit ''.'' s = Some r \<Longrightarrow> s = CHR ''.'' # r"
  by (cases s) (auto simp: eat_lit_def split: if_splits)

lemma match_version_Some:
  assumes "match_version s = Some (a, b, c)"
  shows "(s = a @ ''.'' @ b @ ''.'' @ c \<or> s = a @ ''.'' @ b @ ''.'' @ c @ [newline])
       \<and> a \<noteq> [] \<and> b \<noteq> [] \<and> c \<noteq> []
       \<and> list_all is_digit a \<and> list_all is_digit b \<and> list_all is_digit c"
proof -
  from assms obtain r1 r2 r3 r4 r5 where
    e: "eat_digits s = Some r1" "eat_lit ''.'' r1 = Some r2" "eat_digits r2 = Some r3"
       "eat_lit ''.'' r3 = Some r4" "eat_digits r4 = Some r5"
    and fin: "r5 = [] \<or> r5 = [newline]"
    and abc: "a = takeWhile is_digit s" "b = takeWhile is_digit r2" "c = takeWhile is_digit r4"
    by (auto simp: match_version_def Option.bind_eq_Some_conv split: if_splits)
  from eat_digits_Some [OF e(1)] eat_dot_Some [OF e(2)] eat_digits_Some [OF e(3)]
    eat_dot_Some [OF e(4)] eat_digits_Some [OF e(5)] fin abc
  show ?thesis by (metis append_Cons append_Nil append_Nil2)
qed





lemma parse_version_Inr:
  assumes "parse_version h s = Inr (x, y, z)"
  shows "\<exists>a b c. match_version (strip s) = Some (a, b, c)
           \<and> py_int h a = Inr x \<and> py_int h b = Inr y \<and> py_int h c = Inr z"
  using assms by (auto simp: parse_version_def and_then_def split: option.splits sum.splits)

text \<open>The components of a version that has been parsed can be formatted again.\<close>

lemma parse_version_formats:
  assumes "parse_version h s = Inr (x, y, z)"
  shows "py_str h x = Inr (decimal x) \<and> py_str h y = Inr (decimal y) \<and> py_str h z = Inr (decimal z)"
proof -
  from parse_version_Inr [OF assms] obtain a b c where
    m: "match_version (strip s) = Some (a, b, c)"
    and i: "py_int h a = Inr x" "py_int h b = Inr y" "py_int h c = Inr z"
    by blast
  from match_version_Some [OF m] have
    d: "a \<noteq> []" "b \<noteq> []" "c \<noteq> []" "list_all is_digit a" "list_all is_digit b" "list_all is_digit c"
    by auto
  from py_int_py_str [OF i(1) d(4) d(1)] py_int_py_str [OF i(2) d(5) d(2)] py_int_py_str [OF i(3) d(6) d(3)]
  show ?thesis by simp
qed

subsection \<open>The new version\<close>

text \<open>
  C1, as amended. When the current version parses to \<open>(x, y, z)\<close>, the keyword \<open>patch\<close>
  computes the text of \<open>x.y.(z+1)\<close>, \<open>minor\<close> that of \<open>x.(y+1).0\<close> and \<open>major\<close> that
  of \<open>(x+1).0.0\<close>, provided the decimal form of the component that grew is within the
  interpreter's limit on the digits of a conversion; each of these texts then parses back to
  the triple named, so exactly one component grew by one and the lower ones are zero. Beyond
  the limit the formatting raises ValueError and there is no new version. A literal target
  that parses is itself the new version, whatever the current version is.
\<close>

theorem bump_keyword_or_literal:
  assumes "parse_version h current_version = Inr (x, y, z)"
  shows "calc_new_version h ''patch'' (x, y, z) =
           (if exceeds_limit h (length (decimal (z + 1))) then Inl (Uncaught ValueError)
            else Inr (decimal x @ ''.'' @ decimal y @ ''.'' @ decimal (z + 1)))
       \<and> (\<not> exceeds_limit h (length (decimal (z + 1))) \<longrightarrow>
            parse_version h (decimal x @ ''.'' @ decimal y @ ''.'' @ decimal (z + 1)) = Inr (x, y, z + 1))
       \<and> calc_new_version h ''minor'' (x, y, z) =
           (if exceeds_limit h (length (decimal (y + 1))) then Inl (Uncaught ValueError)
            else Inr (decimal x @ ''.'' @ decimal (y + 1) @ ''.0''))
       \<and> (\<not> exceeds_limit h (length (decimal (y + 1))) \<longrightarrow>
            parse_version h (decimal x @ ''.'' @ decimal (y + 1) @ ''.0'') = Inr (x, y + 1, 0))
       \<and> calc_new_version h ''major'' (x, y, z) =
           (if exceeds_limit h (length (decimal (x + 1))) then Inl (Uncaught ValueError)
            else Inr (decimal (x + 1) @ ''.0.0''))
       \<and> (\<not> exceeds_limit h (length (decimal (x + 1))) \<longrightarrow>
            parse_version h (decimal (x + 1) @ ''.0.0'') = Inr (x + 1, 0, 0))
       \<and> (\<forall>literal v. parse_version h literal = Inr v
             \<longrightarrow> calc_new_version h literal (x, y, z) = Inr literal)"
proof -
  from parse_version_formats [OF assms] have
    f: "py_str h x = Inr (decimal x)" "py_str h y = Inr (decimal y)" by simp_all
  then have fits: "\<not> exceeds_limit h (length (decimal x))" "\<not> exceeds_limit h (length (decimal y))"
    using py_str_Inr by blast+
  have zero: "\<not> exceeds_limit h (length (decimal 0))"
    by (simp add: decimal_0 exceeds_limit_small)
  have p1: "calc_new_version h ''patch'' (x, y, z) =
           (if exceeds_limit h (length (decimal (z + 1))) then Inl (Uncaught ValueError)
            else Inr (decimal x @ ''.'' @ decimal y @ ''.'' @ decimal (z + 1)))"
    by (simp add: calc_new_version_def and_then_def py_str_def fits)
  have p2: "parse_version h (decimal x @ ''.'' @ decimal y @ ''.'' @ decimal (z + 1)) = Inr (x, y, z + 1)"
    if "\<not> exceeds_limit h (length (decimal (z + 1)))"
    using parse_version_render [OF fits(1) fits(2) that] .
  have m1: "calc_new_version h ''minor'' (x, y, z) =
           (if exceeds_limit h (length (decimal (y + 1))) then Inl (Uncaught ValueError)
            else Inr (decimal x @ ''.'' @ decimal (y + 1) @ ''.0''))"
    by (simp add: calc_new_version_def and_then_def py_str_def fits)
  have m2: "parse_version h (decimal x @ ''.'' @ decimal (y + 1) @ ''.0'') = Inr (x, y + 1, 0)"
    if "\<not> exceeds_limit h (length (decimal (y + 1)))"
    using parse_version_render [OF fits(1) that zero] by (simp add: decimal_0)
  have j1: "calc_new_version h ''major'' (x, y, z) =
           (if exceeds_limit h (length (decimal (x + 1))) then Inl (Uncaught ValueError)
            else Inr (decimal (x + 1) @ ''.0.0''))"
    by (simp add: calc_new_version_def and_then_def py_str_def)
  have j2: "parse_version h (decimal (x + 1) @ ''.0.0'') = Inr (x + 1, 0, 0)"
    if "\<not> exceeds_limit h (length (decimal (x + 1)))"
    using parse_version_render [OF that zero zero] by (simp add: decimal_0)
  have lit: "calc_new_version h literal (x, y, z) = Inr literal"
    if ok: "parse_version h literal = Inr v" for literal v
  proof -
    from ok have "literal \<noteq> ''major''" "literal \<noteq> ''minor''" "literal \<noteq> ''patch''"
      using keywords_do_not_parse [of h] by auto
    with ok show ?thesis by (simp add: calc_new_version_def)
  qed
  from p1 p2 m1 m2 j1 j2 lit show ?thesis by blast
qed

theorem bump_keyword_or_literal_witness:
  "parse_version ex_linux ''1.2.3'' = Inr (1, 2, 3)
   \<and> calc_new_version ex_linux ''patch'' (1, 2, 3) = Inr ''1.2.4''
   \<and> parse_version ex_linux ''1.2.4'' = Inr (1, 2, 4)
   \<and> calc_new_version ex_linux ''minor'' (1, 2, 3) = Inr ''1.3.0''
   \<and> calc_new_version ex_linux ''major'' (1, 2, 3) = Inr ''2.0.0''
   \<and> parse_version ex_linux ''9.9.9'' = Inr (9, 9, 9)
   \<and> calc_new_version ex_linux ''9.9.9'' (1, 2, 3) = Inr ''9.9.9''"
proof -
  have cur: "parse_version ex_linux ''1.2.3'' = Inr (1, 2, 3)" by code_simp
  have lit: "parse_version ex_linux ''9.9.9'' = Inr (9, 9, 9)" by code_simp
  have r: "decimal 1 = ''1''" "decimal 2 = ''2''" "decimal (3 + 1) = ''4''" "decimal (2 + 1) = ''3''"
    "decimal (1 + 1) = ''2''"
    by code_simp+
  have l: "\<not> exceeds_limit ex_linux (Suc 0)" by (simp add: exceeds_limit_small)
  from bump_keyword_or_literal [OF cur] cur lit r l show ?thesis by simp
qed

text \<open>Versions at the limit.\<close>

lemma nines_digits: "list_all is_digit (replicate n CHR ''9'')"
  by (simp add: list_all_iff is_digit_def)

lemma digits_value_nines: "digits_value (replicate n CHR ''9'') = 10 ^ n - 1"
proof (induction n)
  case 0
  then show ?case by (simp add: digits_value_def)
next
  case (Suc n)
  have "replicate (Suc n) CHR ''9'' = replicate n CHR ''9'' @ [CHR ''9'']"
    by (simp add: replicate_append_same)
  then have "digits_value (replicate (Suc n) CHR ''9'') = 10 * (10 ^ n - 1) + 9"
    using Suc by (simp only: digits_value_snoc) (simp add: digit_val_def)
  moreover have "(1::nat) \<le> 10 ^ n" by simp
  then have "10 * (10 ^ n - 1) + 9 = (10::nat) ^ Suc n - 1" by (simp add: algebra_simps)
  ultimately show ?case by simp
qed

lemma length_decimal_power: "length (decimal (10 ^ n)) = Suc n"
proof (induction n)
  case 0
  then show ?case by (subst decimal.simps) simp
next
  case (Suc n)
  have "\<not> (10::nat) ^ Suc n < 10" by simp
  then show ?case using Suc by (subst decimal.simps) simp
qed

lemma nines_parse:
  assumes "0 < n" "\<not> exceeds_limit h n"
  shows "parse_version h (''1.2.'' @ replicate n CHR ''9'') = Inr (1, 2, 10 ^ n - 1)"
proof -
  have one: "list_all is_digit ''1''" "list_all is_digit ''2''" "''1'' \<noteq> []" "''2'' \<noteq> []"
    by (simp_all add: is_digit_def)
  have ne: "replicate n CHR ''9'' \<noteq> []" using assms(1) by simp
  have v: "digits_value ''1'' = 1" "digits_value ''2'' = 2" by (simp_all add: digits_value_def digit_val_def)
  have s: "\<not> exceeds_limit h (length ''1'')" "\<not> exceeds_limit h (length ''2'')"
    by (simp_all add: exceeds_limit_small)
  from parse_version_digits [OF one(1) one(3) one(2) one(4) nines_digits ne, of h]
  show ?thesis using assms(2) s by (simp add: v digits_value_nines)
qed

lemma nines_patch:
  assumes "exceeds_limit h (Suc n)"
  shows "calc_new_version h ''patch'' (1, 2, 10 ^ n - 1) = Inl (Uncaught ValueError)"
proof -
  have "(10::nat) ^ n - 1 + 1 = 10 ^ n" by simp
  then have "length (decimal (10 ^ n - 1 + 1)) = Suc n" by (simp only: length_decimal_power)
  with assms have "py_str h (10 ^ n - 1 + 1) = Inl (Uncaught ValueError)" by (simp only: py_str_def if_True)
  moreover have "py_str h 1 = Inr ''1''" "py_str h 2 = Inr ''2''"
    by (simp_all add: py_str_def exceeds_limit_small) code_simp+
  ultimately show ?thesis by (simp add: calc_new_version_def and_then_def)
qed

lemma ex_linux_limit:
  "\<not> exceeds_limit ex_linux 4300" "exceeds_limit ex_linux (Suc 4300)"
  by (simp_all add: exceeds_limit_def ex_linux_def str_digits_check_threshold_def)

lemma ex_nines_facts:
  "list_all is_digit ex_nines" "ex_nines \<noteq> []" "length ex_nines = 4300"
  "list_all is_digit (ex_nines @ ''9'')" "length (ex_nines @ ''9'') = Suc 4300"
  unfolding ex_nines_def by (simp_all add: list_all_iff is_digit_def)

text \<open>
  The claim C1 as stated fails at the interpreter's limit. On the host of the example the
  limit is the default of 4300 digits. A VERSION file whose patch component is 4300 nines
  parses, but the keyword \<open>patch\<close> then has a number of 4301 digits to format: the bump ends
  with ValueError, nothing is displayed and nothing is written. A literal target whose patch
  component has 4301 digits has the shape X.Y.Z and is refused in the same way.
\<close>

theorem bump_beyond_digit_limit:
  "parse_version ex_linux (''1.2.'' @ ex_nines) = Inr (1, 2, ex_nines_value)
   \<and> calc_new_version ex_linux ''patch'' (1, 2, ex_nines_value) = Inl (Uncaught ValueError)
   \<and> bump_version ex_linux ''patch'' ''/r'' False (initial ex_files_nines)
       = (Inl (Uncaught ValueError), initial ex_files_nines)
   \<and> shape_xyz (''1.2.'' @ ex_nines @ ''9'')
   \<and> calc_new_version ex_linux (''1.2.'' @ ex_nines @ ''9'') (1, 2, 3) = Inl (Uncaught ValueError)"
proof -
  have one: "list_all is_digit ''1''" "list_all is_digit ''2''" "''1'' \<noteq> []" "''2'' \<noteq> []"
    by (simp_all add: is_digit_def)
  have p: "parse_version ex_linux (''1.2.'' @ ex_nines) = Inr (1, 2, ex_nines_value)"
    unfolding ex_nines_def ex_nines_value_def
    by (rule nines_parse) (simp_all add: ex_linux_limit)
  have c: "calc_new_version ex_linux ''patch'' (1, 2, ex_nines_value) = Inl (Uncaught ValueError)"
    unfolding ex_nines_value_def by (rule nines_patch) (rule ex_linux_limit)
  have st: "strip (''1.2.'' @ ex_nines) = ''1.2.'' @ ex_nines"
    using strip_render [OF one(1) one(3) ex_nines_facts(1,2), of "''2''"] by simp
  have b: "bump_version ex_linux ''patch'' ''/r'' False (initial ex_files_nines)
       = (Inl (Uncaught ValueError), initial ex_files_nines)"
    using p c st
    by (simp add: bump_version_def seq_def get_def read_text_def lift_def initial_def
          ex_files_nines_def version_file_def joinpath_def)
  have sh: "shape_xyz (''1.2.'' @ ex_nines @ ''9'')"
    unfolding shape_xyz_iff
    by (rule exI [of _ "''1''"], rule exI [of _ "''2''"], rule exI [of _ "ex_nines @ ''9''"])
       (simp add: ex_nines_facts is_digit_def)
  have "parse_version ex_linux (''1.2.'' @ ex_nines @ ''9'') = Inl (Uncaught ValueError)"
    using parse_version_digits [OF one(1) one(3) one(2) one(4) ex_nines_facts(4), of ex_linux]
      ex_linux_limit(2)
    by (simp add: ex_nines_facts)
  then have l: "calc_new_version ex_linux (''1.2.'' @ ex_nines @ ''9'') (1, 2, 3) = Inl (Uncaught ValueError)"
    by (simp add: calc_new_version_def)
  from p c b sh l show ?thesis by blast
qed

subsection \<open>Rules for actions\<close>

lemma triple_seq:
  assumes "triple P m Q E" and "\<And>x. triple (Q x) (f x) R E"
  shows "triple P (seq m f) R E"
  using assms unfolding triple_def seq_def
  by (fastforce split: prod.splits sum.splits)

lemma triple_weaken:
  assumes "triple P m Q E" and "\<And>w. P' w \<Longrightarrow> P w" and "\<And>x w. Q x w \<Longrightarrow> Q' x w" and "\<And>w. E w \<Longrightarrow> E' w"
  shows "triple P' m Q' E'"
  using assms unfolding triple_def
  by (fastforce split: prod.splits sum.splits)

lemma triple_ret: "triple (Q x) (ret x) Q E"
  by (simp add: triple_def ret_def)

lemma triple_raise: "triple E (raise e) Q E"
  by (simp add: triple_def raise_def)

lemma triple_print_error: "triple E (print_error m) Q E"
  by (simp add: print_error_def triple_raise)

lemma triple_lift: "triple P (lift r) (\<lambda>_. P) P"
  by (simp add: triple_def lift_def split: sum.splits)

lemma triple_if:
  assumes "b \<Longrightarrow> triple P m Q E" and "\<not> b \<Longrightarrow> triple P n Q E"
  shows "triple P (if b then m else n) Q E"
  using assms by simp

lemma triple_read_text: "triple P (read_text p) (\<lambda>_. P) P"
  by (simp add: triple_def read_text_def split: option.splits)

lemma triple_run:
  "triple P m Q E \<Longrightarrow> P w \<Longrightarrow> m w = (r, w') \<Longrightarrow> (case r of Inl e \<Rightarrow> E w' | Inr x \<Rightarrow> Q x w')"
  by (auto simp: triple_def split: sum.splits)

subsection \<open>What a trace shows\<close>

lemma writes_append: "writes (xs @ ys) = writes xs @ writes ys"
  by (induction xs rule: writes.induct) simp_all

lemma written_append: "written (xs @ ys) = written xs @ written ys"
  by (simp add: written_def writes_append)

lemma shown_transitions_append: "shown_transitions (xs @ ys) = shown_transitions xs @ shown_transitions ys"
  by (induction xs rule: shown_transitions.induct) simp_all

subsection \<open>The version bump keeps the transition it displayed\<close>

lemma keeps_emit:
  "shown_transitions [e] = [] \<Longrightarrow>
   triple (\<lambda>w. shown_transitions (trace w) = c) (emit e)
     (\<lambda>_ w. shown_transitions (trace w) = c) (\<lambda>w. shown_transitions (trace w) = c)"
  by (simp add: triple_def emit_def shown_transitions_append)

lemma keeps_write_text:
  "triple (\<lambda>w. shown_transitions (trace w) = c) (write_text p s)
     (\<lambda>_ w. shown_transitions (trace w) = c) (\<lambda>w. shown_transitions (trace w) = c)"
  by (simp add: triple_def write_text_def shown_transitions_append split: option.splits)

lemma keeps_update_cmake:
  "triple (\<lambda>w. shown_transitions (trace w) = c) (update_cmake p nv)
     (\<lambda>_ w. shown_transitions (trace w) = c) (\<lambda>w. shown_transitions (trace w) = c)"
  unfolding update_cmake_def
  by (rule triple_seq [OF triple_read_text]) (rule keeps_write_text)

lemma keeps_update_hpp:
  "triple (\<lambda>w. shown_transitions (trace w) = c) (update_hpp h p nv v)
     (\<lambda>_ w. shown_transitions (trace w) = c) (\<lambda>w. shown_transitions (trace w) = c)"
  unfolding update_hpp_def Let_def
  by (cases v) (simp, rule triple_seq [OF triple_read_text], rule triple_seq [OF triple_lift],
      rule triple_seq [OF triple_lift], rule triple_seq [OF triple_lift], rule keeps_write_text)

lemma keeps_update_manifest:
  "triple (\<lambda>w. shown_transitions (trace w) = c) (update_manifest h p ind nv)
     (\<lambda>_ w. shown_transitions (trace w) = c) (\<lambda>w. shown_transitions (trace w) = c)"
  unfolding update_manifest_def
  by (rule triple_seq [OF triple_read_text], rule triple_seq [OF triple_lift],
      rule triple_seq [OF triple_lift], rule keeps_write_text)

lemma keeps_apply_version:
  "triple (\<lambda>w. shown_transitions (trace w) = c) (apply_version h root nv)
     (\<lambda>_ w. shown_transitions (trace w) = c) (\<lambda>w. shown_transitions (trace w) = c)"
  unfolding apply_version_def
  by (rule triple_seq [OF triple_lift] triple_seq [OF keeps_emit] triple_seq [OF keeps_write_text]
        triple_seq [OF keeps_update_cmake] triple_seq [OF keeps_update_hpp]
        triple_seq [OF keeps_update_manifest] keeps_emit | simp)+

lemma triple_snd: "triple P m (\<lambda>_. I) I \<Longrightarrow> P w \<Longrightarrow> I (snd (m w))"
  by (cases "m w") (auto simp: triple_def split: sum.splits)

lemma apply_version_transitions:
  "shown_transitions (trace (snd (apply_version h root nv w))) = shown_transitions (trace w)"
  by (rule triple_snd [OF keeps_apply_version]) simp

subsection \<open>The dry run\<close>

lemma bump_version_cases:
  "(\<exists>e. \<forall>dry. bump_version h t root dry w = (Inl e, w))
   \<or> (\<exists>cur nv. \<forall>dry. bump_version h t root dry w =
         (if dry then emit DryRunNote else apply_version h root nv)
           (w\<lparr>trace := trace w @ [Transition cur nv]\<rparr>))"
  by (auto simp: bump_version_def seq_def get_def read_text_def lift_def emit_def print_error_def
        raise_def Let_def split: option.splits sum.splits)

text \<open>
  C2. Whatever the target and the state, a dry run leaves every file as it was (so the five
  targets too) and writes nothing; the transition it displays is the one a real run from
  the same state displays; and when the dry run stops with an error, the real run stops with
  the same error in the unchanged state.
\<close>

theorem dry_run_same_version_no_write:
  "files (snd (bump_version h t root True w)) = files w
   \<and> written (trace (snd (bump_version h t root True w))) = written (trace w)
   \<and> shown_transitions (trace (snd (bump_version h t root True w)))
       = shown_transitions (trace (snd (bump_version h t root False w)))
   \<and> (\<forall>e. fst (bump_version h t root True w) = Inl e
         \<longrightarrow> bump_version h t root False w = (Inl e, w))"
proof -
  consider (stop) e where "\<forall>dry. bump_version h t root dry w = (Inl e, w)"
    | (go) cur nv where "\<forall>dry. bump_version h t root dry w =
         (if dry then emit DryRunNote else apply_version h root nv)
           (w\<lparr>trace := trace w @ [Transition cur nv]\<rparr>)"
    using bump_version_cases [of h t root w] by blast
  then show ?thesis
  proof cases
    case stop
    then show ?thesis by simp
  next
    case go
    then have dry: "bump_version h t root True w =
        (Inr (), w\<lparr>trace := trace w @ [Transition cur nv, DryRunNote]\<rparr>)"
      by (simp add: emit_def)
    from go have real: "bump_version h t root False w =
        apply_version h root nv (w\<lparr>trace := trace w @ [Transition cur nv]\<rparr>)"
      by simp
    show ?thesis
      by (simp add: dry real apply_version_transitions shown_transitions_append written_def writes_append)
  qed
qed

theorem dry_run_same_version_no_write_witness:
  "files (snd (bump_version ex_linux ''minor'' ''/r'' True (initial ex_files_ok))) = ex_files_ok
   \<and> shown_transitions (trace (snd (bump_version ex_linux ''minor'' ''/r'' False (initial ex_files_ok))))
       = [(''1.2.3'', ''1.3.0'')]
   \<and> bump_version ex_linux ''1.2'' ''/r'' False (initial ex_files_ok)
       = (Inl (Fatal ''Invalid version format: 1.2 (expected: X.Y.Z)''), initial ex_files_ok)"
proof -
  have d: "shown_transitions (trace (snd (bump_version ex_linux ''minor'' ''/r'' True (initial ex_files_ok))))
      = [(''1.2.3'', ''1.3.0'')]" by code_simp
  have e: "fst (bump_version ex_linux ''1.2'' ''/r'' True (initial ex_files_ok))
      = Inl (Fatal ''Invalid version format: 1.2 (expected: X.Y.Z)'')" by code_simp
  from dry_run_same_version_no_write [of ex_linux "''minor''" "''/r''" "initial ex_files_ok"]
       dry_run_same_version_no_write [of ex_linux "''1.2''" "''/r''" "initial ex_files_ok"] d e
  show ?thesis by (simp add: initial_def)
qed

lemma length_targets: "length (targets root) = 5"
  by (simp add: targets_def)

lemma distinct_targets: "distinct (targets root)"
  by (auto simp: targets_def version_file_def engine_cmake_def engine_version_hpp_def
        engine_vcpkg_json_def app_package_json_def joinpath_def)

lemma version_file_first: "targets root ! 0 = version_file root"
  by (simp add: targets_def)

lemma writes_paths: "(q, s) \<in> set (writes es) \<Longrightarrow> q \<in> set (written es)"
  by (force simp: written_def)

lemma bumped_start: "bumped root nv w 0 w"
  by (simp add: bumped_def written_def)

lemma bumped_emit:
  assumes e: "writes [e] = []"
  shows "triple (bumped root nv w0 k) (emit e) (\<lambda>_. bumped root nv w0 k) (bumped root nv w0 k)"
proof -
  have "bumped root nv w0 k (w\<lparr>trace := trace w @ [e]\<rparr>)" if b: "bumped root nv w0 k w" for w
  proof -
    from b obtain new where new: "trace w = trace w0 @ new"
        "written new = take k (targets root)"
        "list_all (\<lambda>ps. files w (fst ps) = Some (TextFile (snd ps) True)) (writes new)"
        "0 < k \<longrightarrow> files w (version_file root) = Some (TextFile (nv @ [newline]) True)"
      by (auto simp: bumped_def)
    show ?thesis
      unfolding bumped_def
      by (rule exI [of _ "new @ [e]"]) (use new e in \<open>simp add: written_def writes_append\<close>)
  qed
  then show ?thesis by (simp add: triple_def emit_def)
qed

lemma bumped_write:
  assumes k: "k < 5" and p: "p = targets root ! k" and v: "k = 0 \<longrightarrow> s = nv @ [newline]"
  shows "triple (bumped root nv w0 k) (write_text p s)
           (\<lambda>_. bumped root nv w0 (Suc k)) (bumped root nv w0 k)"
proof -
  have step: "bumped root nv w0 (Suc k)
                (w\<lparr>files := (files w)(p \<mapsto> TextFile s True), trace := trace w @ [Wrote p s]\<rparr>)"
    if b: "bumped root nv w0 k w" for w
  proof -
    from b obtain new where new: "trace w = trace w0 @ new"
        "written new = take k (targets root)"
        "list_all (\<lambda>ps. files w (fst ps) = Some (TextFile (snd ps) True)) (writes new)"
        "0 < k \<longrightarrow> files w (version_file root) = Some (TextFile (nv @ [newline]) True)"
      by (auto simp: bumped_def)
    have fresh: "p \<notin> set (take k (targets root))"
      using k p distinct_targets [of root] length_targets [of root]
      by (metis distinct_take id_take_nth_drop not_distinct_conv_prefix in_set_conv_decomp append.assoc append_Cons)
    have w1: "written (new @ [Wrote p s]) = take (Suc k) (targets root)"
      using new(2) k p length_targets [of root]
      by (simp add: written_def writes_append take_Suc_conv_app_nth)
    have old: "list_all (\<lambda>ps. ((files w)(p \<mapsto> TextFile s True)) (fst ps) = Some (TextFile (snd ps) True)) (writes new)"
      using new(3) fresh new(2) writes_paths [of _ _ new]
      by (auto simp: list_all_iff)
    have ver: "((files w)(p \<mapsto> TextFile s True)) (version_file root) = Some (TextFile (nv @ [newline]) True)"
    proof (cases "k = 0")
      case True
      with p v show ?thesis by (simp add: version_file_first)
    next
      case False
      then have "version_file root \<in> set (take k (targets root))"
        by (cases k) (simp_all add: targets_def)
      with fresh have "version_file root \<noteq> p" by auto
      with new(4) False show ?thesis by simp
    qed
    show ?thesis
      unfolding bumped_def
      by (rule exI [of _ "new @ [Wrote p s]"]) (use new(1) w1 old ver in \<open>simp add: writes_append\<close>)
  qed
  show ?thesis
    unfolding triple_def write_text_def
    by (auto simp: step split: option.splits)
qed

lemma bumped_fail: "k \<le> 5 \<Longrightarrow> bumped root nv w0 k w \<Longrightarrow> \<exists>j\<le>5. bumped root nv w0 j w"
  by blast

lemma stage_emit:
  assumes "writes [e] = []" and "k \<le> 5"
  shows "triple (bumped root nv w0 k) (emit e) (\<lambda>_. bumped root nv w0 k)
           (\<lambda>w. \<exists>j\<le>5. bumped root nv w0 j w)"
  using bumped_emit [OF assms(1), of root nv w0 k] assms(2)
  unfolding triple_def by (fastforce split: prod.splits sum.splits)

lemma stage_lift:
  assumes "k \<le> 5"
  shows "triple (bumped root nv w0 k) (lift r) (\<lambda>_. bumped root nv w0 k)
           (\<lambda>w. \<exists>j\<le>5. bumped root nv w0 j w)"
  using assms unfolding triple_def lift_def by (auto split: sum.splits)

lemma stage_read:
  assumes "k \<le> 5"
  shows "triple (bumped root nv w0 k) (read_text p) (\<lambda>_. bumped root nv w0 k)
           (\<lambda>w. \<exists>j\<le>5. bumped root nv w0 j w)"
  using assms unfolding triple_def read_text_def by (auto split: option.splits)

lemma stage_write:
  assumes "k < 5" and "p = targets root ! k" and "k = 0 \<longrightarrow> s = nv @ [newline]"
  shows "triple (bumped root nv w0 k) (write_text p s) (\<lambda>_. bumped root nv w0 (Suc k))
           (\<lambda>w. \<exists>j\<le>5. bumped root nv w0 j w)"
proof -
  have "k \<le> 5" using assms(1) by simp
  with bumped_write [OF assms, of w0] show ?thesis
    unfolding triple_def by (fastforce split: prod.splits sum.splits)
qed

lemma stage_cmake:
  "triple (bumped root nv w0 (Suc 0)) (update_cmake (engine_cmake root) nv)
     (\<lambda>_. bumped root nv w0 (Suc (Suc 0))) (\<lambda>w. \<exists>j\<le>5. bumped root nv w0 j w)"
  unfolding update_cmake_def
  apply (rule triple_seq, rule stage_read, simp)
  apply (rule stage_write, simp_all add: targets_def)
  done

lemma stage_hpp:
  "triple (bumped root nv w0 (Suc (Suc 0))) (update_hpp h (engine_version_hpp root) nv v)
     (\<lambda>_. bumped root nv w0 (Suc (Suc (Suc 0)))) (\<lambda>w. \<exists>j\<le>5. bumped root nv w0 j w)"
  unfolding update_hpp_def Let_def
  apply (cases v, simp)
  apply (rule triple_seq, rule stage_read, simp)
  apply (rule triple_seq, rule stage_lift, simp)
  apply (rule triple_seq, rule stage_lift, simp)
  apply (rule triple_seq, rule stage_lift, simp)
  apply (rule stage_write, simp_all add: targets_def)
  done

lemma stage_manifest:
  assumes "k < 5" and "k \<noteq> 0" and "p = targets root ! k"
  shows "triple (bumped root nv w0 k) (update_manifest h p ind nv)
     (\<lambda>_. bumped root nv w0 (Suc k)) (\<lambda>w. \<exists>j\<le>5. bumped root nv w0 j w)"
  unfolding update_manifest_def
  apply (rule triple_seq, rule stage_read, use assms in simp)
  apply (rule triple_seq, rule stage_lift, use assms in simp)
  apply (rule triple_seq, rule stage_lift, use assms in simp)
  apply (rule stage_write, use assms in simp_all)
  done

lemma apply_version_bumped:
  "triple (bumped root nv w0 0) (apply_version h root nv)
     (\<lambda>_. bumped root nv w0 (Suc (Suc (Suc (Suc (Suc 0))))))
     (\<lambda>w. \<exists>j\<le>5. bumped root nv w0 j w)"
  unfolding apply_version_def
  apply (rule triple_seq, rule stage_lift, simp)
  apply (rule triple_seq, rule stage_emit, simp, simp)
  apply (rule triple_seq, rule stage_write, simp, simp add: targets_def, simp)
  apply (rule triple_seq, rule stage_emit, simp, simp)
  apply (rule triple_seq, rule stage_cmake)
  apply (rule triple_seq, rule stage_emit, simp, simp)
  apply (rule triple_seq, rule stage_hpp)
  apply (rule triple_seq, rule stage_emit, simp, simp)
  apply (rule triple_seq, rule stage_manifest, simp, simp, simp add: targets_def)
  apply (rule triple_seq, rule stage_emit, simp, simp)
  apply (rule triple_seq, rule stage_manifest, simp, simp, simp add: targets_def)
  apply (rule triple_seq, rule stage_emit, simp, simp)
  apply (rule triple_seq, rule stage_lift, simp)
  apply (rule stage_emit, simp, simp)
  done

lemma apply_version_outcome:
  assumes "apply_version h root nv w1 = (r, w')"
  shows "\<exists>k\<le>5. bumped root nv w1 k w' \<and> (r = Inr () \<longrightarrow> k = 5)"
proof -
  from apply_version_bumped [of root nv w1 h] bumped_start [of root nv w1] assms
  have "case r of Inl e \<Rightarrow> \<exists>j\<le>5. bumped root nv w1 j w'
                | Inr x \<Rightarrow> bumped root nv w1 (Suc (Suc (Suc (Suc (Suc 0))))) w'"
    unfolding triple_def by (fastforce split: sum.splits)
  then show ?thesis
    by (cases r) (auto simp: eval_nat_numeral)
qed

subsection \<open>The real run: order of the writes, and no rollback\<close>

text \<open>
  C7. In a real run the files written are an initial part of the five targets in their fixed
  order; whatever way the run ends, every write it made is what the file holds at the end
  (nothing is rolled back); a run that returns has written all five; and once the version
  file is written it holds the displayed new version and a newline. The witness has a run in
  which vcpkg.json does not parse, so that the three files before it hold the new version,
  and a run in which CMakeLists.txt may not be written, so that the version file does.
\<close>

theorem bump_no_rollback:
  assumes run: "bump_version h t root False w = (r, w')"
  shows "trace w' = trace w @ drop (length (trace w)) (trace w')
       \<and> written (drop (length (trace w)) (trace w'))
           = take (length (written (drop (length (trace w)) (trace w')))) (targets root)
       \<and> list_all (\<lambda>ps. files w' (fst ps) = Some (TextFile (snd ps) True))
           (writes (drop (length (trace w)) (trace w')))
       \<and> (r = Inr () \<longrightarrow> written (drop (length (trace w)) (trace w')) = targets root)
       \<and> (\<forall>cur nv. written (drop (length (trace w)) (trace w')) \<noteq> []
             \<and> shown_transitions (drop (length (trace w)) (trace w')) = [(cur, nv)]
           \<longrightarrow> files w' (version_file root) = Some (TextFile (nv @ [newline]) True))"
proof -
  consider (stop) e where "\<forall>dry. bump_version h t root dry w = (Inl e, w)"
    | (go) cur nv where "\<forall>dry. bump_version h t root dry w =
         (if dry then emit DryRunNote else apply_version h root nv)
           (w\<lparr>trace := trace w @ [Transition cur nv]\<rparr>)"
    using bump_version_cases [of h t root w] by blast
  then show ?thesis
  proof cases
    case stop
    with run have "w' = w" "r \<noteq> Inr ()" by auto
    then show ?thesis by (simp add: written_def)
  next
    case go
    let ?w1 = "w\<lparr>trace := trace w @ [Transition cur nv]\<rparr>"
    from go run have "apply_version h root nv ?w1 = (r, w')" by simp
    from apply_version_outcome [OF this] obtain k new where k: "k \<le> 5" "r = Inr () \<longrightarrow> k = 5"
      and new: "trace w' = trace ?w1 @ new" "written new = take k (targets root)"
        "list_all (\<lambda>ps. files w' (fst ps) = Some (TextFile (snd ps) True)) (writes new)"
        "0 < k \<longrightarrow> files w' (version_file root) = Some (TextFile (nv @ [newline]) True)"
      unfolding bumped_def by blast
    have tr: "shown_transitions new = []"
      using apply_version_transitions [of h root nv ?w1] \<open>apply_version h root nv ?w1 = (r, w')\<close> new(1)
      by (simp add: shown_transitions_append)
    let ?d = "drop (length (trace w)) (trace w')"
    have d: "?d = Transition cur nv # new" using new(1) by simp
    have wd: "written ?d = take k (targets root)" "writes ?d = writes new"
      using new(2) by (simp_all add: d written_def)
    have len: "length (written ?d) = k" using wd(1) k(1) by (simp add: length_targets)
    have "trace w' = trace w @ ?d" using new(1) by simp
    moreover have "written ?d = take (length (written ?d)) (targets root)" using wd(1) len by simp
    moreover have "list_all (\<lambda>ps. files w' (fst ps) = Some (TextFile (snd ps) True)) (writes ?d)"
      using new(3) wd(2) by simp
    moreover have "r = Inr () \<longrightarrow> written ?d = targets root"
      using k(2) wd(1) by (simp add: length_targets)
    moreover have "\<forall>c n. written ?d \<noteq> [] \<and> shown_transitions ?d = [(c, n)]
        \<longrightarrow> files w' (version_file root) = Some (TextFile (n @ [newline]) True)"
    proof (intro allI impI)
      fix c n assume a: "written ?d \<noteq> [] \<and> shown_transitions ?d = [(c, n)]"
      then have "0 < k" using wd(1) by (cases k) simp_all
      moreover from a have "n = nv" by (simp add: d tr)
      ultimately show "files w' (version_file root) = Some (TextFile (n @ [newline]) True)"
        using new(4) by simp
    qed
    ultimately show ?thesis by blast
  qed
qed

theorem bump_no_rollback_witness:
  "fst (bump_version ex_linux ''patch'' ''/r'' False (initial ex_files)) = Inl (Uncaught JSONDecodeError)
   \<and> written (trace (snd (bump_version ex_linux ''patch'' ''/r'' False (initial ex_files))))
       = [''/r/VERSION'', ''/r/engine/CMakeLists.txt'', ''/r/engine/include/vayu/version.hpp'']
   \<and> files (snd (bump_version ex_linux ''patch'' ''/r'' False (initial ex_files))) ''/r/VERSION''
       = Some (TextFile (''1.2.4'' @ [newline]) True)
   \<and> files (snd (bump_version ex_linux ''patch'' ''/r'' False (initial ex_files))) ''/r/engine/CMakeLists.txt''
       = Some (TextFile ''project(vayu VERSION 1.2.4)'' True)
   \<and> files (snd (bump_version ex_linux ''patch'' ''/r'' False (initial ex_files))) ''/r/engine/include/vayu/version.hpp''
       = Some (TextFile ''#define VAYU_VERSION_PATCH 4'' True)
   \<and> fst (bump_version ex_linux ''patch'' ''/r'' False (initial ex_files_locked))
       = Inl (Uncaught PermissionError)
   \<and> files (snd (bump_version ex_linux ''patch'' ''/r'' False (initial ex_files_locked))) ''/r/VERSION''
       = Some (TextFile (''1.2.4'' @ [newline]) True)
   \<and> fst (bump_version ex_linux ''patch'' ''/r'' False (initial ex_files_ok)) = Inr ()
   \<and> written (trace (snd (bump_version ex_linux ''patch'' ''/r'' False (initial ex_files_ok)))) = targets ''/r''"
proof -
  let ?locked = "bump_version ex_linux ''patch'' ''/r'' False (initial ex_files_locked)"
  have r3: "fst ?locked = Inl (Uncaught PermissionError)" by code_simp
  have t3: "trace (snd ?locked) =
      [Transition ''1.2.3'' ''1.2.4'', Updating ''VERSION'', Wrote ''/r/VERSION'' (''1.2.4'' @ [newline]),
       Updating ''engine/CMakeLists.txt'']" by code_simp
  let ?bad = "bump_version ex_linux ''patch'' ''/r'' False (initial ex_files)"
  let ?ok = "bump_version ex_linux ''patch'' ''/r'' False (initial ex_files_ok)"
  have r1: "fst ?bad = Inl (Uncaught JSONDecodeError)" by code_simp
  have t1: "trace (snd ?bad) =
      [Transition ''1.2.3'' ''1.2.4'', Updating ''VERSION'', Wrote ''/r/VERSION'' (''1.2.4'' @ [newline]),
       Updating ''engine/CMakeLists.txt'', Wrote ''/r/engine/CMakeLists.txt'' ''project(vayu VERSION 1.2.4)'',
       Updating ''engine/include/vayu/version.hpp'',
       Wrote ''/r/engine/include/vayu/version.hpp'' ''#define VAYU_VERSION_PATCH 4'',
       Updating ''engine/vcpkg.json'']" by code_simp
  have r2: "fst ?ok = Inr ()" by code_simp
  have i: "trace (initial ex_files) = []" "trace (initial ex_files_ok) = []"
    "trace (initial ex_files_locked) = []" by (simp_all add: initial_def)
  from bump_no_rollback [of ex_linux "''patch''" "''/r''" "initial ex_files_locked", OF prod.collapse [symmetric]]
  have c: "list_all (\<lambda>ps. files (snd ?locked) (fst ps) = Some (TextFile (snd ps) True)) (writes (trace (snd ?locked)))"
    by (simp add: i)
  from c have l: "files (snd ?locked) ''/r/VERSION'' = Some (TextFile (''1.2.4'' @ [newline]) True)"
    by (simp add: t3)
  from bump_no_rollback [of ex_linux "''patch''" "''/r''" "initial ex_files", OF prod.collapse [symmetric]]
  have a: "list_all (\<lambda>ps. files (snd ?bad) (fst ps) = Some (TextFile (snd ps) True)) (writes (trace (snd ?bad)))"
    by (simp add: i)
  from bump_no_rollback [of ex_linux "''patch''" "''/r''" "initial ex_files_ok", OF prod.collapse [symmetric]] r2
  have b: "written (trace (snd ?ok)) = targets ''/r''"
    by (simp add: i)
  from a have "files (snd ?bad) ''/r/VERSION'' = Some (TextFile (''1.2.4'' @ [newline]) True)"
    "files (snd ?bad) ''/r/engine/CMakeLists.txt'' = Some (TextFile ''project(vayu VERSION 1.2.4)'' True)"
    "files (snd ?bad) ''/r/engine/include/vayu/version.hpp'' = Some (TextFile ''#define VAYU_VERSION_PATCH 4'' True)"
    by (simp_all add: t1)
  with r1 r2 r3 l b show ?thesis by (simp add: t1 written_def)
qed

subsection \<open>A malformed version is refused\<close>




subsection \<open>Spinner\<close>

text \<open>
  C8, as amended. Stopping a spinner that was never started, or stopping again after a
  stop, leaves the spinner object as it is. In verbose mode the call changes nothing at all;
  otherwise it writes the final line once more.
\<close>

theorem stop_idle_spinner:
  "fst (stop g c (Spinner msg) w) = Inr (Spinner msg)
   \<and> (\<forall>s1 w1. stop g c s w = (Inr s1, w1) \<longrightarrow> fst (stop g' c' s1 w1) = Inr s1)
   \<and> (\<not> running s \<and> thread s \<noteq> Some Alive \<longrightarrow> fst (stop g c s w) = Inr s)
   \<and> snd (stop g c s w)
       = (if VERBOSE w then w else w\<lparr>trace := trace w @ [SpinnerLine c g (message s)]\<rparr>)"
proof -
  have j: "Joined = a" if "a \<noteq> Alive" for a
    using that by (cases a) simp_all
  show ?thesis
    by (cases s) (auto simp: stop_def Spinner_def j split: option.splits)
qed

theorem stop_idle_spinner_witness:
  "fst (stop CROSS RED (Spinner ''Building'') (initial Map.empty)) = Inr (Spinner ''Building'')
   \<and> fst (stop CHECK GREEN (Spinner ''Building'') ((initial Map.empty)\<lparr>VERBOSE := True\<rparr>)) = Inr (Spinner ''Building'')
   \<and> snd (stop CHECK GREEN (Spinner ''Building'') ((initial Map.empty)\<lparr>VERBOSE := True\<rparr>))
       = (initial Map.empty)\<lparr>VERBOSE := True\<rparr>"
  using stop_idle_spinner [of CROSS RED "''Building''" "initial Map.empty" "Spinner ''Building''"]
    stop_idle_spinner [of CHECK GREEN "''Building''" "(initial Map.empty)\<lparr>VERBOSE := True\<rparr>" "Spinner ''Building''"]
  by (simp add: Spinner_def)

text \<open>
  The claim C8 as stated fails: outside verbose mode a stop on a spinner that was never
  started writes a line, and a second stop writes it again.
\<close>

theorem stop_idle_spinner_writes:
  "trace (snd (stop CHECK GREEN (Spinner ''Building'') (initial Map.empty)))
     = [SpinnerLine GREEN CHECK ''Building'']
   \<and> trace (initial Map.empty) = []
   \<and> trace (snd (stop CHECK GREEN (Spinner ''Building'')
        (snd (stop CHECK GREEN (Spinner ''Building'') (initial Map.empty)))))
     = [SpinnerLine GREEN CHECK ''Building'', SpinnerLine GREEN CHECK ''Building'']"
  by (simp add: stop_def Spinner_def initial_def)

subsection \<open>Reading traces\<close>

lemma spawned_append: "spawned (xs @ ys) = spawned xs @ spawned ys"
  by (induction xs rule: spawned.induct) simp_all

lemma command_errors_append: "command_errors (xs @ ys) = command_errors xs @ command_errors ys"
  by (induction xs rule: command_errors.induct) simp_all

lemma steps_append: "steps (xs @ ys) = steps xs @ steps ys"
  by (induction xs rule: steps.induct) simp_all

subsection \<open>The command runner\<close>

text \<open>
  C4, as amended. On a supported platform, when the start of the command that is actually
  started (the argv after line 488 has put the located pnpm path in place of the bare name
  on Windows) fails with FileNotFoundError, \<open>run_command\<close> ends through
  \<^verbatim>\<open>print_error\<close> with the message "Command not found:" and the first element of
  that argv alone, after exactly one attempt to start it; no report of a failed command (the
  one carrying an exit code) is printed. Nothing is said here of a start that fails with
  another error of the operating system.
\<close>

theorem missing_executable_is_not_found:
  assumes "detect_platform h = Inr pf"
    and "resolve_pnpm (fst pf) (PNPM_PATH w) cmd0 = c0 # rest"
    and "proc h (trace w @ (if VERBOSE w then [LogDim (''$ '' @ join_words (c0 # rest))] else []))
           (c0 # rest) cwd = NoSuchFile"
  shows "fst (run_command h cmd0 cwd description w) = Inl (Fatal (''Command not found: '' @ c0))
       \<and> spawned (trace (snd (run_command h cmd0 cwd description w)))
           = spawned (trace w) @ [(c0 # rest, NoSuchFile)]
       \<and> command_errors (trace (snd (run_command h cmd0 cwd description w)))
           = command_errors (trace w)"
proof (cases "VERBOSE w")
  case True
  with assms show ?thesis
    by (simp add: run_command_def seq_def get_def lift_def emit_def ret_def run_proc_def print_error_def
          raise_def Let_def spawned_append command_errors_append)
next
  case False
  with assms show ?thesis
    by (simp add: run_command_def seq_def get_def lift_def emit_def ret_def run_proc_def print_error_def
          raise_def Let_def spawned_append command_errors_append)
qed

theorem missing_executable_is_not_found_witness:
  "fst (run_command ex_linux [''ctest'', ''--preset'', ''linux-dev''] (Some ''/r/engine'') ''Unit tests''
         (initial Map.empty)) = Inl (Fatal ''Command not found: ctest'')
   \<and> command_errors (trace (snd (run_command ex_linux [''ctest'', ''--preset'', ''linux-dev'']
         (Some ''/r/engine'') ''Unit tests'' (initial Map.empty)))) = []"
proof -
  have a: "detect_platform ex_linux = Inr (''Linux'', ''linux'')" by code_simp
  have b: "resolve_pnpm (fst (''Linux'', ''linux'')) (PNPM_PATH (initial Map.empty))
             [''ctest'', ''--preset'', ''linux-dev''] = ''ctest'' # [''--preset'', ''linux-dev'']"
    by code_simp
  have c: "proc ex_linux
             (trace (initial Map.empty)
              @ (if VERBOSE (initial Map.empty)
                 then [LogDim (''$ '' @ join_words (''ctest'' # [''--preset'', ''linux-dev'']))] else []))
             (''ctest'' # [''--preset'', ''linux-dev'']) (Some ''/r/engine'') = NoSuchFile"
    by (simp add: ex_linux_def)
  from missing_executable_is_not_found [OF a b c, of "''Unit tests''"]
  show ?thesis by (simp add: initial_def)
qed

text \<open>
  The claim C4 as stated fails: on the Windows host of the example the first element of
  the argv \<^verbatim>\<open>["pnpm", "install"]\<close> is not on the PATH and cannot be started, yet
  after the prerequisite check has located \<^verbatim>\<open>pnpm.cmd\<close> under
  \<^verbatim>\<open>APPDATA\<close> the runner starts that instead and returns success. It fails in a
  second way on the Linux host of the example: the path \<^verbatim>\<open>/usr/bin/cmake/ctest\<close>
  names no executable, the operating system answers that \<^verbatim>\<open>/usr/bin/cmake\<close> is
  not a directory, and this error is not among those that \<open>run_command\<close> catches
  (lines 499-510), so it leaves the function instead of becoming "Command not found".
\<close>

theorem bare_pnpm_on_windows_runs:
  "which ex_windows ''pnpm'' = None
   \<and> (\<forall>tr cwd. proc ex_windows tr [''pnpm'', ''install''] cwd = NoSuchFile)
   \<and> PNPM_PATH (snd (check_tool ex_windows ''pnpm'' [''pnpm'', ''--version''] (initial Map.empty)))
       = ex_pnpm_cmd
   \<and> fst (run_command ex_windows [''pnpm'', ''install''] None ''pnpm install''
            (snd (check_tool ex_windows ''pnpm'' [''pnpm'', ''--version''] (initial Map.empty))))
       = Inr (True, ''done'')
   \<and> proc ex_linux [] [''/usr/bin/cmake/ctest'', ''--preset'', ''linux-dev''] (Some ''/r/engine'') = Refused
   \<and> fst (run_command ex_linux [''/usr/bin/cmake/ctest'', ''--preset'', ''linux-dev''] (Some ''/r/engine'')
        ''Unit tests'' (initial Map.empty)) = Inl (Uncaught OSError)
   \<and> trace (snd (run_command ex_linux [''/usr/bin/cmake/ctest'', ''--preset'', ''linux-dev'']
        (Some ''/r/engine'') ''Unit tests'' (initial Map.empty)))
       = [Spawn [''/usr/bin/cmake/ctest'', ''--preset'', ''linux-dev''] (Some ''/r/engine'') Refused]"
proof -
  have "which ex_windows ''pnpm'' = None"
    by (simp add: ex_windows_def)
  moreover have "\<forall>tr cwd. proc ex_windows tr [''pnpm'', ''install''] cwd = NoSuchFile"
    by (simp add: ex_windows_def ex_pnpm_cmd_def)
  moreover have "PNPM_PATH (snd (check_tool ex_windows ''pnpm'' [''pnpm'', ''--version''] (initial Map.empty)))
       = ex_pnpm_cmd" by code_simp
  moreover have "fst (run_command ex_windows [''pnpm'', ''install''] None ''pnpm install''
            (snd (check_tool ex_windows ''pnpm'' [''pnpm'', ''--version''] (initial Map.empty))))
       = Inr (True, ''done'')" by code_simp
  moreover have "proc ex_linux [] [''/usr/bin/cmake/ctest'', ''--preset'', ''linux-dev''] (Some ''/r/engine'') = Refused"
    by code_simp
  moreover have "fst (run_command ex_linux [''/usr/bin/cmake/ctest'', ''--preset'', ''linux-dev''] (Some ''/r/engine'')
        ''Unit tests'' (initial Map.empty)) = Inl (Uncaught OSError)" by code_simp
  moreover have "trace (snd (run_command ex_linux [''/usr/bin/cmake/ctest'', ''--preset'', ''linux-dev'']
        (Some ''/r/engine'') ''Unit tests'' (initial Map.empty)))
       = [Spawn [''/usr/bin/cmake/ctest'', ''--preset'', ''linux-dev''] (Some ''/r/engine'') Refused]"
    by code_simp
  ultimately show ?thesis by blast
qed

subsection \<open>main: the flags\<close>

text \<open>
  C6, as amended. When no version bump is requested (\<^verbatim>\<open>--bump-version\<close> absent or
  empty), an invocation with both \<^verbatim>\<open>-e\<close> and \<^verbatim>\<open>-a\<close>, and one with
  \<^verbatim>\<open>--test-only\<close> and \<^verbatim>\<open>-t\<close>, ends through \<^verbatim>\<open>print_error\<close> with exit
  status 1 before anything else happens: no child process is started and no stage is
  announced; the state differs from the initial one only in the verbosity flag.
\<close>

theorem exclusive_flags_rejected:
  assumes "arg_bump_version a = None \<or> arg_bump_version a = Some []"
    and "(arg_engine_only a \<and> arg_app_only a) \<or> (arg_test_only a \<and> arg_tests a)"
  shows "(\<exists>m. main h a project_root w = (Inl (Fatal m), w\<lparr>VERBOSE := arg_verbose a\<rparr>))
       \<and> exit_code (main h a project_root w) = 1
       \<and> spawned (trace (snd (main h a project_root w))) = spawned (trace w)
       \<and> steps (trace (snd (main h a project_root w))) = steps (trace w)"
  using assms
  by (auto simp: main_def seq_def set_VERBOSE_def print_error_def raise_def exit_code_def Let_def)

theorem exclusive_flags_rejected_witness:
  "main ex_linux (no_flags\<lparr>arg_engine_only := True, arg_app_only := True\<rparr>) ''/r'' (initial ex_files)
     = (Inl (Fatal ''Cannot use -e and -a together''), initial ex_files)
   \<and> main ex_linux (no_flags\<lparr>arg_test_only := True, arg_tests := True\<rparr>) ''/r'' (initial ex_files)
     = (Inl (Fatal ''Cannot use --test-only with -t (tests will run automatically)''), initial ex_files)
   \<and> spawned (trace (snd (main ex_linux (no_flags\<lparr>arg_engine_only := True, arg_app_only := True\<rparr>)
        ''/r'' (initial ex_files)))) = []"
  using exclusive_flags_rejected [of "no_flags\<lparr>arg_engine_only := True, arg_app_only := True\<rparr>" ex_linux "''/r''" "initial ex_files"]
    exclusive_flags_rejected [of "no_flags\<lparr>arg_test_only := True, arg_tests := True\<rparr>" ex_linux "''/r''" "initial ex_files"]
  by (simp add: no_flags_def initial_def main_def seq_def set_VERBOSE_def print_error_def raise_def)

text \<open>
  The claim C6 as stated fails: with \<^verbatim>\<open>--bump-version\<close> the version bump runs first
  and \<^verbatim>\<open>main\<close> returns (line 1025) before the flags are compared, so the run is not
  rejected and the exit status is 0.
\<close>

theorem bump_short_circuits_flag_check:
  "fst (main ex_linux
          (no_flags\<lparr>arg_engine_only := True, arg_app_only := True,
                     arg_bump_version := Some ''patch'', arg_dry_run := True\<rparr>)
          ''/r'' (initial ex_files)) = Inr ()
   \<and> exit_code (main ex_linux
          (no_flags\<lparr>arg_engine_only := True, arg_app_only := True,
                     arg_bump_version := Some ''patch'', arg_dry_run := True\<rparr>)
          ''/r'' (initial ex_files)) = 0
   \<and> exit_code (main ex_linux
          (no_flags\<lparr>arg_test_only := True, arg_tests := True,
                     arg_bump_version := Some ''patch'', arg_dry_run := True\<rparr>)
          ''/r'' (initial ex_files)) = 0"
  by code_simp

text \<open>
  C9. The mode is \<^verbatim>\<open>args.dev or not args.prod\<close> (line 1027). With both flags, and with
  \<^verbatim>\<open>--dev\<close> alone, the run is a development run; with \<^verbatim>\<open>--prod\<close> alone it is
  a production run. With neither flag it is a development run as well, although the help
  text of the script (lines 989 and 1006) names production as the default.
\<close>

theorem no_flags_runs_development:
  "dev_mode_of no_flags
   \<and> hd (trace (snd (main ex_linux no_flags ''/r'' (initial ex_files))))
       = BuildInfo ''Development'' [''Engine'', ''App''] ''Linux'' False
   \<and> hd (trace (snd (main ex_linux (no_flags\<lparr>arg_prod := True\<rparr>) ''/r'' (initial ex_files))))
       = BuildInfo ''Production'' [''Engine'', ''App''] ''Linux'' False
   \<and> hd (trace (snd (main ex_linux (no_flags\<lparr>arg_dev := True, arg_prod := True\<rparr>) ''/r'' (initial ex_files))))
       = BuildInfo ''Development'' [''Engine'', ''App''] ''Linux'' False"
  by code_simp

subsection \<open>Actions that only add to the trace\<close>

lemma grows_ret: "grows (ret x)"
  by (simp add: grows_def ret_def)

lemma grows_raise: "grows (raise e)"
  by (simp add: grows_def raise_def)

lemma grows_print_error: "grows (print_error m)"
  by (simp add: print_error_def grows_raise)

lemma grows_lift: "grows (lift r)"
  by (simp add: grows_def lift_def)

lemma grows_emit: "grows (emit e)"
  by (simp add: grows_def emit_def)

lemma grows_emits: "grows (emits es)"
  by (simp add: grows_def emits_def)

lemma grows_get: "grows (get f)"
  by (simp add: grows_def get_def)

lemma grows_ask: "grows (ask f)"
  by (simp add: grows_def ask_def)

lemma grows_exists_now: "grows (exists_now h p)"
  by (simp add: exists_now_def grows_ask)

lemma grows_first_existing: "grows (first_existing h ps)"
  by (simp add: first_existing_def grows_ask)

lemma grows_run_proc: "grows (run_proc h argv cwd)"
  by (simp add: grows_def run_proc_def Let_def)

lemma grows_set_CMAKE_PATH: "grows (set_CMAKE_PATH p)"
  by (simp add: grows_def set_CMAKE_PATH_def)

lemma grows_set_PNPM_PATH: "grows (set_PNPM_PATH p)"
  by (simp add: grows_def set_PNPM_PATH_def)

lemma grows_seq:
  assumes "grows m" and "\<And>x. grows (f x)"
  shows "grows (seq m f)"
proof -
  have "\<exists>new. trace (snd (seq m f w)) = trace w @ new" for w
  proof (cases "m w")
    case (Pair r w1)
    from assms(1) Pair obtain n1 where n1: "trace w1 = trace w @ n1"
      by (auto simp: grows_def dest: spec [of _ w])
    show ?thesis
    proof (cases r)
      case (Inl e)
      with Pair n1 show ?thesis by (simp add: seq_def)
    next
      case (Inr x)
      from assms(2) [of x] obtain n2 where "trace (snd (f x w1)) = trace w1 @ n2"
        by (auto simp: grows_def)
      with Pair Inr n1 show ?thesis by (simp add: seq_def)
    qed
  qed
  then show ?thesis by (simp add: grows_def)
qed

lemma grows_if: "grows m \<Longrightarrow> grows n \<Longrightarrow> grows (if b then m else n)"
  by simp

lemma grows_case_option:
  "grows m \<Longrightarrow> (\<And>x. grows (f x)) \<Longrightarrow> grows (case v of None \<Rightarrow> m | Some x \<Rightarrow> f x)"
  by (cases v) simp_all

lemma grows_case_list:
  "grows m \<Longrightarrow> (\<And>x xs. grows (f x xs)) \<Longrightarrow> grows (case v of [] \<Rightarrow> m | x # xs \<Rightarrow> f x xs)"
  by (cases v) simp_all

lemma grows_case_proc:
  "(\<And>rc out err. grows (f rc out err)) \<Longrightarrow> grows a \<Longrightarrow> grows b \<Longrightarrow> grows c \<Longrightarrow>
   grows (case r of Completed rc out err \<Rightarrow> f rc out err | NoSuchFile \<Rightarrow> a | TimedOut \<Rightarrow> b | Refused \<Rightarrow> c)"
  by (cases r) simp_all

lemmas grows_intros =
  grows_ret grows_raise grows_print_error grows_lift grows_get grows_ask grows_emit grows_emits
  grows_exists_now grows_first_existing grows_run_proc grows_set_CMAKE_PATH grows_set_PNPM_PATH
  grows_seq grows_if grows_case_option grows_case_list grows_case_proc

lemma grows_probe: "grows (probe h argv)"
  unfolding probe_def by (intro grows_intros)

lemma grows_find_visual_studio: "grows (find_visual_studio h)"
  unfolding find_visual_studio_def Let_def by (intro grows_intros)

lemma grows_find_cmake_windows: "grows (find_cmake_windows h)"
  unfolding find_cmake_windows_def Let_def by (intro grows_intros grows_find_visual_studio)

lemma grows_npm_query: "grows (npm_query h argv usable candidates)"
  unfolding npm_query_def by (intro grows_intros)

lemma grows_find_pnpm_windows: "grows (find_pnpm_windows h)"
  unfolding find_pnpm_windows_def Let_def by (intro grows_intros grows_npm_query)

lemma grows_find_vcpkg_windows: "grows (find_vcpkg_windows h)"
  unfolding find_vcpkg_windows_def Let_def by (intro grows_intros grows_find_visual_studio)

lemma grows_standard_check: "grows (standard_check h name command)"
  unfolding standard_check_def by (intro grows_intros grows_probe)

lemma grows_check_tool: "grows (check_tool h name command)"
  unfolding check_tool_def
  by (intro grows_intros grows_probe grows_standard_check grows_find_cmake_windows
        grows_find_pnpm_windows)

lemma grows_check_vcpkg: "grows (check_vcpkg h)"
  unfolding check_vcpkg_def by (intro grows_intros grows_find_vcpkg_windows)

lemma grows_check_tools: "grows (check_tools h ts)"
  by (induction ts) (auto intro!: grows_intros grows_check_tool)

lemma grows_run: "grows m \<Longrightarrow> m w = (r, w') \<Longrightarrow> \<exists>new. trace w' = trace w @ new"
  by (auto simp: grows_def dest: spec [of _ w])

subsection \<open>The child processes of the search for vcpkg\<close>

lemma starts_only_ret: "starts_only P (ret x)"
  by (simp add: starts_only_def ret_def)

lemma starts_only_raise: "starts_only P (raise e)"
  by (simp add: starts_only_def raise_def)

lemma starts_only_lift: "starts_only P (lift r)"
  by (simp add: starts_only_def lift_def)

lemma starts_only_ask: "starts_only P (ask f)"
  by (simp add: starts_only_def ask_def)

lemma starts_only_exists_now: "starts_only P (exists_now h p)"
  by (simp add: exists_now_def starts_only_ask)

lemma starts_only_run_proc: "P argv \<Longrightarrow> starts_only P (run_proc h argv cwd)"
  by (simp add: starts_only_def run_proc_def Let_def)

lemma starts_only_seq:
  assumes "starts_only P m" and "\<And>x. starts_only P (f x)"
  shows "starts_only P (seq m f)"
proof -
  have "\<exists>new. trace (snd (seq m f w)) = trace w @ new \<and> list_all (\<lambda>a. P (fst a)) (spawned new)" for w
  proof (cases "m w")
    case (Pair r w1)
    from assms(1) Pair obtain n1 where n1: "trace w1 = trace w @ n1" "list_all (\<lambda>a. P (fst a)) (spawned n1)"
      by (auto simp: starts_only_def dest: spec [of _ w])
    show ?thesis
    proof (cases r)
      case (Inl e)
      with Pair n1 show ?thesis by (simp add: seq_def)
    next
      case (Inr x)
      from assms(2) [of x] obtain n2 where "trace (snd (f x w1)) = trace w1 @ n2"
          "list_all (\<lambda>a. P (fst a)) (spawned n2)"
        by (auto simp: starts_only_def)
      with Pair Inr n1 show ?thesis by (simp add: seq_def spawned_append)
    qed
  qed
  then show ?thesis by (simp add: starts_only_def)
qed

lemma starts_only_if: "starts_only P m \<Longrightarrow> starts_only P n \<Longrightarrow> starts_only P (if b then m else n)"
  by simp

lemma starts_only_case_option:
  "starts_only P m \<Longrightarrow> (\<And>x. starts_only P (f x)) \<Longrightarrow> starts_only P (case v of None \<Rightarrow> m | Some x \<Rightarrow> f x)"
  by (cases v) simp_all

lemma starts_only_case_list:
  "starts_only P m \<Longrightarrow> (\<And>x xs. starts_only P (f x xs)) \<Longrightarrow> starts_only P (case v of [] \<Rightarrow> m | x # xs \<Rightarrow> f x xs)"
  by (cases v) simp_all

lemma starts_only_case_proc:
  "(\<And>rc out err. starts_only P (f rc out err)) \<Longrightarrow> starts_only P a \<Longrightarrow> starts_only P b \<Longrightarrow> starts_only P c \<Longrightarrow>
   starts_only P (case r of Completed rc out err \<Rightarrow> f rc out err | NoSuchFile \<Rightarrow> a | TimedOut \<Rightarrow> b | Refused \<Rightarrow> c)"
  by (cases r) simp_all

lemmas starts_only_intros =
  starts_only_ret starts_only_raise starts_only_lift starts_only_ask starts_only_exists_now
  starts_only_seq starts_only_if starts_only_case_option starts_only_case_list starts_only_case_proc

lemma starts_only_find_visual_studio:
  "starts_only (\<lambda>argv. argv = vswhere_query h) (find_visual_studio h)"
  unfolding find_visual_studio_def Let_def
  by (intro starts_only_intros starts_only_run_proc) (simp add: vswhere_query_def)

lemma starts_only_find_vcpkg_windows:
  "starts_only (\<lambda>argv. argv = vswhere_query h) (find_vcpkg_windows h)"
  unfolding find_vcpkg_windows_def Let_def
  by (intro starts_only_intros starts_only_find_visual_studio)

lemma starts_only_check_vcpkg:
  "starts_only (\<lambda>argv. argv = vswhere_query h) (check_vcpkg h)"
  unfolding check_vcpkg_def
  by (intro starts_only_intros starts_only_find_vcpkg_windows)

lemma check_vcpkg_quiet:
  assumes "system h \<noteq> ''Windows''"
  shows "trace (snd (check_vcpkg h w)) = trace w"
  using assms
  by (auto simp: check_vcpkg_def detect_platform_def seq_def lift_def ask_def ret_def
        split: option.splits list.splits)

lemma check_vcpkg_starts:
  "trace (snd (check_vcpkg h w)) = trace w @ drop (length (trace w)) (trace (snd (check_vcpkg h w)))
   \<and> list_all (\<lambda>a. fst a = vswhere_query h)
        (spawned (drop (length (trace w)) (trace (snd (check_vcpkg h w)))))"
proof -
  from starts_only_check_vcpkg [of h] obtain new where
    "trace (snd (check_vcpkg h w)) = trace w @ new" "list_all (\<lambda>a. fst a = vswhere_query h) (spawned new)"
    by (auto simp: starts_only_def dest: spec [of _ w])
  then show ?thesis by simp
qed

subsection \<open>A tool is available only after a probe that ended with exit code 0\<close>

lemma probe_Some:
  assumes "probe h argv w = (Inr (Some v), w')"
  shows "\<exists>out err. proc h (trace w) argv None = Completed 0 out err \<and> v = version_of_output out
           \<and> trace w' = trace w @ [Spawn argv None (Completed 0 out err)]"
  using assms
  by (auto simp: probe_def seq_def run_proc_def ret_def Let_def split: proc_result.splits if_splits)

lemma standard_check_True:
  assumes "standard_check h name command w = (Inr (True, v), w')"
  shows "\<exists>c0 rest p out err. command = c0 # rest \<and> which h c0 = Some p \<and> p \<noteq> []
           \<and> proc h (trace w) (p # rest) None = Completed 0 out err \<and> v = version_of_output out
           \<and> trace w' = trace w @ [Spawn (p # rest) None (Completed 0 out err)]"
proof -
  from assms obtain c0 rest p where c: "command = c0 # rest" "which h c0 = Some p" "p \<noteq> []"
    by (auto simp: standard_check_def ret_def raise_def split: list.splits option.splits if_splits)
  with assms obtain w1 where p: "probe h (p # rest) w = (Inr (Some v), w1)" and t: "trace w' = trace w1"
    by (auto simp: standard_check_def seq_def ret_def set_PNPM_PATH_def
          split: prod.splits sum.splits option.splits if_splits)
  from probe_Some [OF p] c t show ?thesis by auto
qed

lemma check_tool_True:
  assumes "check_tool h name command w = (Inr (True, v), w')"
  shows "\<exists>pre p rest out err.
           trace w' = trace w @ pre @ [Spawn (p # rest) None (Completed 0 out err)]
           \<and> proc h (trace w @ pre) (p # rest) None = Completed 0 out err
           \<and> p \<noteq> [] \<and> v = version_of_output out
           \<and> ((\<exists>c0. command = c0 # rest \<and> which h c0 = Some p)
              \<or> (\<exists>w1. find_cmake_windows h w = (Inr (Some p), w1))
              \<or> (\<exists>w1. find_pnpm_windows h w = (Inr (Some p), w1)))"
proof -
  from assms obtain pf where pf: "detect_platform h = Inr pf"
    by (auto simp: check_tool_def seq_def lift_def split: sum.splits)
  have std: ?thesis if "standard_check h name command w1 = (Inr (True, v), w')"
      and g: "trace w1 = trace w @ pre" for w1 pre
    using standard_check_True [OF that(1)] g by fastforce
  show ?thesis
  proof (cases "name = ''CMake'' \<and> fst pf = ''Windows''")
    case True
    with assms pf obtain p w1 where f: "find_cmake_windows h w = (Inr (Some p), w1)" "p \<noteq> []"
      and rest: "seq (probe h [p, ''--version'']) (\<lambda>v.
             case v of
               None \<Rightarrow> ret (False, [])
             | Some version \<Rightarrow> seq (set_CMAKE_PATH p) (\<lambda>_. ret (True, version))) w1 = (Inr (True, v), w')"
      by (auto simp: check_tool_def seq_def lift_def ret_def
            split: prod.splits sum.splits option.splits if_splits)
    from rest obtain w2 where p: "probe h [p, ''--version''] w1 = (Inr (Some v), w2)" and t: "trace w' = trace w2"
      by (auto simp: seq_def ret_def set_CMAKE_PATH_def split: prod.splits sum.splits option.splits)
    from grows_run [OF grows_find_cmake_windows f(1)] obtain pre where g: "trace w1 = trace w @ pre" by blast
    from probe_Some [OF p] g t f show ?thesis by fastforce
  next
    case notcmake: False
    show ?thesis
    proof (cases "name = ''pnpm'' \<and> fst pf = ''Windows''")
      case False
      with notcmake assms pf have "standard_check h name command w = (Inr (True, v), w')"
        by (auto simp: check_tool_def seq_def lift_def)
      from std [OF this, of "[]"] show ?thesis by simp
    next
      case True
      obtain r1 w1 where f: "find_pnpm_windows h w = (r1, w1)" by (cases "find_pnpm_windows h w")
      from grows_run [OF grows_find_pnpm_windows f] obtain pre where g: "trace w1 = trace w @ pre" by blast
      from True notcmake assms pf f have r1: "\<exists>found. r1 = Inr found"
        by (cases r1) (auto simp: check_tool_def seq_def lift_def)
      then obtain found where fd: "r1 = Inr found" by blast
      show ?thesis
      proof (cases "\<exists>p. found = Some p \<and> p \<noteq> []")
        case False
        with True notcmake assms pf f fd have "standard_check h name command w1 = (Inr (True, v), w')"
          by (cases found) (auto simp: check_tool_def seq_def lift_def)
        from std [OF this g] show ?thesis .
      next
        case yes: True
        then obtain p where p: "found = Some p" "p \<noteq> []" by blast
        obtain r2 w2 where pr: "probe h [p, ''--version''] w1 = (r2, w2)"
          by (cases "probe h [p, ''--version''] w1")
        from grows_run [OF grows_probe pr] g obtain pre2 where g2: "trace w2 = trace w @ pre2" by auto
        from True notcmake assms pf f fd p pr
        consider (direct) "r2 = Inr (Some v)" "trace w' = trace w2"
          | (fallback) "standard_check h name command w2 = (Inr (True, v), w')"
          by (cases r2)
             (auto simp: check_tool_def seq_def lift_def ret_def set_PNPM_PATH_def
                split: option.splits)
        then show ?thesis
        proof cases
          case direct
          from probe_Some [OF pr [unfolded direct(1)]] g direct(2) p f fd show ?thesis by fastforce
        next
          case fallback
          from std [OF this g2] show ?thesis .
        qed
      qed
    qed
  qed
qed

lemma check_tools_rows:
  "check_tools h ts w = (Inr rs, w') \<Longrightarrow>
   \<exists>new. trace w' = trace w @ new \<and> map fst rs = map fst ts
     \<and> (\<forall>name v. (name, True, v) \<in> set rs \<longrightarrow>
           (\<exists>p rest out err. (p # rest, Completed 0 out err) \<in> set (spawned new)
              \<and> p \<noteq> [] \<and> v = version_of_output out))"
proof (induction ts arbitrary: w rs)
  case Nil
  then show ?case by (simp add: ret_def)
next
  case (Cons t ts)
  from Cons.prems obtain ok v w1 rs1 where
    c: "check_tool h (fst t) (snd t) w = (Inr (ok, v), w1)"
    and cs: "check_tools h ts w1 = (Inr rs1, w')"
    and rs: "rs = (fst t, ok, v) # rs1"
    by (auto simp: seq_def ret_def split: prod.splits sum.splits)
  from grows_run [OF grows_check_tool c] obtain n1 where n1: "trace w1 = trace w @ n1" by blast
  from Cons.IH [OF cs] obtain n2 where n2: "trace w' = trace w1 @ n2" "map fst rs1 = map fst ts"
    and old: "\<forall>name v. (name, True, v) \<in> set rs1 \<longrightarrow>
           (\<exists>p rest out err. (p # rest, Completed 0 out err) \<in> set (spawned n2)
              \<and> p \<noteq> [] \<and> v = version_of_output out)"
    by blast
  have here: "\<exists>p rest out err. (p # rest, Completed 0 out err) \<in> set (spawned n1)
              \<and> p \<noteq> [] \<and> v = version_of_output out" if "ok"
  proof -
    from that c check_tool_True [of h "fst t" "snd t" w v w1] n1
    obtain pre p rest out err where "n1 = pre @ [Spawn (p # rest) None (Completed 0 out err)]"
      "p \<noteq> []" "v = version_of_output out"
      by auto
    then show ?thesis by (auto simp: spawned_append)
  qed
  show ?case
  proof (intro exI [of _ "n1 @ n2"] conjI allI impI)
    show "trace w' = trace w @ n1 @ n2" using n1 n2 by simp
    show "map fst rs = map fst (t # ts)" using rs n2 by simp
    fix name v' assume "(name, True, v') \<in> set rs"
    then consider "name = fst t" "ok" "v' = v" | "(name, True, v') \<in> set rs1" using rs by auto
    then show "\<exists>p rest out err. (p # rest, Completed 0 out err) \<in> set (spawned (n1 @ n2))
              \<and> p \<noteq> [] \<and> v' = version_of_output out"
    proof cases
      case 1
      with here show ?thesis by (fastforce simp: spawned_append)
    next
      case 2
      with old show ?thesis by (fastforce simp: spawned_append)
    qed
  qed
qed

lemma seq_Inr:
  "seq m f w = (Inr y, w') \<Longrightarrow> \<exists>x w1. m w = (Inr x, w1) \<and> f x w1 = (Inr y, w')"
  by (cases "m w") (auto simp: seq_def split: sum.splits)

lemma collect_results_rows:
  assumes "collect_results h skip_app w = (Inr rows, w')"
  shows "\<exists>rs w1 v w2. check_tools h (required_tools skip_app) w = (Inr rs, w1)
           \<and> check_vcpkg h w1 = (Inr v, w2)
           \<and> rows = rs @ [if truthy v then (''vcpkg'', True, the v) else (''vcpkg'', False, ''not found'')]
           \<and> trace w' = trace w2 @ (if truthy v then [SetEnv ''VCPKG_ROOT'' (the v)] else [])"
proof -
  from seq_Inr [OF assms [unfolded collect_results_def]] obtain rs w1 where
    ct: "check_tools h (required_tools skip_app) w = (Inr rs, w1)"
    and r1: "seq (check_vcpkg h) (\<lambda>vcpkg_root.
       case vcpkg_root of
         None \<Rightarrow> ret (rs @ [(''vcpkg'', False, ''not found'')])
       | Some root \<Rightarrow>
           if root = [] then ret (rs @ [(''vcpkg'', False, ''not found'')])
           else seq (emit (SetEnv ''VCPKG_ROOT'' root)) (\<lambda>_.
                ret (rs @ [(''vcpkg'', True, root)]))) w1 = (Inr rows, w')"
    by blast
  from seq_Inr [OF r1] obtain v w2 where
    cv: "check_vcpkg h w1 = (Inr v, w2)"
    and r2: "(case v of
         None \<Rightarrow> ret (rs @ [(''vcpkg'', False, ''not found'')])
       | Some root \<Rightarrow>
           if root = [] then ret (rs @ [(''vcpkg'', False, ''not found'')])
           else seq (emit (SetEnv ''VCPKG_ROOT'' root)) (\<lambda>_.
                ret (rs @ [(''vcpkg'', True, root)]))) w2 = (Inr rows, w')"
    by blast
  have "rows = rs @ [if truthy v then (''vcpkg'', True, the v) else (''vcpkg'', False, ''not found'')]
      \<and> trace w' = trace w2 @ (if truthy v then [SetEnv ''VCPKG_ROOT'' (the v)] else [])"
    using r2 by (cases v) (auto simp: ret_def seq_def emit_def truthy_def split: if_splits)
  with ct cv show ?thesis by blast
qed

text \<open>
  C3, as amended. Whenever \<open>check_tool\<close> reports a tool available, the last thing it did
  was to run a version probe that ended with exit code 0, on a non-empty path that
  \<^verbatim>\<open>shutil.which\<close> or one of the two Windows searches had returned, and the version
  reported is the first line of that probe's output. So in the table of the prerequisite
  stage every row but the last (CMake, Ninja, pnpm) that is marked available has such a
  probe among the child processes of the stage. The last row, vcpkg, is marked available
  exactly when \<open>check_vcpkg\<close> returned a root directory. No version probe is run for
  it: whatever the host and the state, the only child process that \<open>check_vcpkg\<close> ever
  starts is the query of the Visual Studio locator for the installation path, and outside
  Windows it starts none and leaves the trace as it was.
\<close>

theorem available_only_after_probe:
  "(check_tool h name command w = (Inr (True, v), w') \<longrightarrow>
      (\<exists>pre p rest out err.
           trace w' = trace w @ pre @ [Spawn (p # rest) None (Completed 0 out err)]
           \<and> proc h (trace w @ pre) (p # rest) None = Completed 0 out err
           \<and> p \<noteq> [] \<and> v = version_of_output out
           \<and> ((\<exists>c0. command = c0 # rest \<and> which h c0 = Some p)
              \<or> (\<exists>w1. find_cmake_windows h w = (Inr (Some p), w1))
              \<or> (\<exists>w1. find_pnpm_windows h w = (Inr (Some p), w1)))))
   \<and> (collect_results h skip_app w0 = (Inr rows, w0') \<longrightarrow>
        (\<forall>tool version. (tool, True, version) \<in> set (butlast rows) \<longrightarrow>
           (\<exists>p rest out err.
              (p # rest, Completed 0 out err) \<in> set (spawned (drop (length (trace w0)) (trace w0')))
              \<and> p \<noteq> [] \<and> version = version_of_output out))
        \<and> (\<exists>rs w1 root w2. check_tools h (required_tools skip_app) w0 = (Inr rs, w1)
              \<and> check_vcpkg h w1 = (Inr root, w2)
              \<and> last rows = (if truthy root then (''vcpkg'', True, the root)
                              else (''vcpkg'', False, ''not found''))))
   \<and> trace (snd (check_vcpkg h w2))
       = trace w2 @ drop (length (trace w2)) (trace (snd (check_vcpkg h w2)))
   \<and> list_all (\<lambda>a. fst a = vswhere_query h)
        (spawned (drop (length (trace w2)) (trace (snd (check_vcpkg h w2)))))
   \<and> (system h \<noteq> ''Windows'' \<longrightarrow> trace (snd (check_vcpkg h w2)) = trace w2)"
proof (intro conjI impI)
  show "trace (snd (check_vcpkg h w2))
       = trace w2 @ drop (length (trace w2)) (trace (snd (check_vcpkg h w2)))"
    using check_vcpkg_starts [of h w2] by blast
  show "list_all (\<lambda>a. fst a = vswhere_query h)
        (spawned (drop (length (trace w2)) (trace (snd (check_vcpkg h w2)))))"
    using check_vcpkg_starts [of h w2] by blast
  show "trace (snd (check_vcpkg h w2)) = trace w2" if "system h \<noteq> ''Windows''"
    using that by (rule check_vcpkg_quiet)
next
  assume "check_tool h name command w = (Inr (True, v), w')"
  from check_tool_True [OF this]
  show "\<exists>pre p rest out err.
           trace w' = trace w @ pre @ [Spawn (p # rest) None (Completed 0 out err)]
           \<and> proc h (trace w @ pre) (p # rest) None = Completed 0 out err
           \<and> p \<noteq> [] \<and> v = version_of_output out
           \<and> ((\<exists>c0. command = c0 # rest \<and> which h c0 = Some p)
              \<or> (\<exists>w1. find_cmake_windows h w = (Inr (Some p), w1))
              \<or> (\<exists>w1. find_pnpm_windows h w = (Inr (Some p), w1)))" .
next
  assume a: "collect_results h skip_app w0 = (Inr rows, w0')"
  from collect_results_rows [OF a] obtain rs w1 root w2 where
    ct: "check_tools h (required_tools skip_app) w0 = (Inr rs, w1)"
    and cv: "check_vcpkg h w1 = (Inr root, w2)"
    and rows: "rows = rs @ [if truthy root then (''vcpkg'', True, the root) else (''vcpkg'', False, ''not found'')]"
    and tr: "trace w0' = trace w2 @ (if truthy root then [SetEnv ''VCPKG_ROOT'' (the root)] else [])"
    by blast
  from check_tools_rows [OF ct] obtain n1 where n1: "trace w1 = trace w0 @ n1"
    and pr: "\<forall>name v. (name, True, v) \<in> set rs \<longrightarrow>
           (\<exists>p rest out err. (p # rest, Completed 0 out err) \<in> set (spawned n1)
              \<and> p \<noteq> [] \<and> v = version_of_output out)"
    by blast
  from grows_run [OF grows_check_vcpkg cv] obtain n2 where n2: "trace w2 = trace w1 @ n2" by blast
  let ?tail = "n2 @ (if truthy root then [SetEnv ''VCPKG_ROOT'' (the root)] else [])"
  have d: "drop (length (trace w0)) (trace w0') = n1 @ ?tail" using tr n1 n2 by simp
  have bl: "butlast rows = rs" using rows by simp
  show "\<forall>tool version. (tool, True, version) \<in> set (butlast rows) \<longrightarrow>
           (\<exists>p rest out err.
              (p # rest, Completed 0 out err) \<in> set (spawned (drop (length (trace w0)) (trace w0')))
              \<and> p \<noteq> [] \<and> version = version_of_output out)"
    unfolding d bl using pr by (fastforce simp: spawned_append)
  show "\<exists>rs w1 root w2. check_tools h (required_tools skip_app) w0 = (Inr rs, w1)
              \<and> check_vcpkg h w1 = (Inr root, w2)
              \<and> last rows = (if truthy root then (''vcpkg'', True, the root)
                              else (''vcpkg'', False, ''not found''))"
    using ct cv rows by auto
qed

theorem available_only_after_probe_witness:
  "fst (check_tool ex_linux ''CMake'' [''cmake'', ''--version''] (initial Map.empty))
     = Inr (True, ''cmake version 3.28.1'')
   \<and> spawned (trace (snd (check_tool ex_linux ''CMake'' [''cmake'', ''--version''] (initial Map.empty))))
     = [([''/usr/bin/cmake'', ''--version''], Completed 0 ''cmake version 3.28.1'' [])]
   \<and> fst (collect_results ex_linux False (initial Map.empty))
     = Inr [(''CMake'', True, ''cmake version 3.28.1''), (''Ninja'', True, ''1.11.1''),
            (''pnpm'', False, []), (''vcpkg'', True, ''/opt/vcpkg'')]
   \<and> trace (snd (check_vcpkg ex_linux (initial Map.empty))) = []
   \<and> fst (check_vcpkg ex_windows_vs (initial Map.empty)) = Inr (Some ''C:/VS/VC/vcpkg'')
   \<and> spawned (trace (snd (check_vcpkg ex_windows_vs (initial Map.empty))))
     = [(vswhere_query ex_windows_vs, Completed 0 ''C:/VS'' [])]"
proof -
  let ?c = "check_tool ex_linux ''CMake'' [''cmake'', ''--version''] (initial Map.empty)"
  let ?r = "collect_results ex_linux False (initial Map.empty)"
  have a: "fst ?c = Inr (True, ''cmake version 3.28.1'')" by code_simp
  have b: "spawned (trace (snd ?c)) = [([''/usr/bin/cmake'', ''--version''], Completed 0 ''cmake version 3.28.1'' [])]"
    by code_simp
  have c: "fst ?r = Inr [(''CMake'', True, ''cmake version 3.28.1''), (''Ninja'', True, ''1.11.1''),
            (''pnpm'', False, []), (''vcpkg'', True, ''/opt/vcpkg'')]" by code_simp
  have e1: "?c = (Inr (True, ''cmake version 3.28.1''), snd ?c)" using a by (cases ?c) simp
  have e2: "?r = (Inr [(''CMake'', True, ''cmake version 3.28.1''), (''Ninja'', True, ''1.11.1''),
            (''pnpm'', False, []), (''vcpkg'', True, ''/opt/vcpkg'')], snd ?r)" using c by (cases ?r) simp
  have s: "system ex_linux \<noteq> ''Windows''" by (simp add: ex_linux_def)
  have v1: "fst (check_vcpkg ex_windows_vs (initial Map.empty)) = Inr (Some ''C:/VS/VC/vcpkg'')"
    by code_simp
  have v2: "spawned (trace (snd (check_vcpkg ex_windows_vs (initial Map.empty))))
     = [(vswhere_query ex_windows_vs, Completed 0 ''C:/VS'' [])]" by code_simp
  have i: "trace (initial Map.empty) = []" by (simp add: initial_def)
  from available_only_after_probe [of ex_linux "''CMake''" "[''cmake'', ''--version'']" "initial Map.empty"
      "''cmake version 3.28.1''" "snd ?c" False "initial Map.empty" _ "snd ?r" "initial Map.empty"]
    e1 e2 s i
  have "trace (snd (check_vcpkg ex_linux (initial Map.empty))) = []" by simp
  moreover
  from available_only_after_probe [of ex_windows_vs "''CMake''" "[''cmake'', ''--version'']" "initial Map.empty"
      "''cmake version 3.28.1''" "snd ?c" False "initial Map.empty" _ "snd ?r" "initial Map.empty"] i
  have "list_all (\<lambda>a. fst a = vswhere_query ex_windows_vs)
          (spawned (trace (snd (check_vcpkg ex_windows_vs (initial Map.empty)))))" by simp
  ultimately show ?thesis using a b c v1 v2 by simp
qed

text \<open>
  The claim C3 as stated fails for vcpkg: on the Linux host of the example vcpkg is reported
  available from the environment variable alone, and the only child processes of the stage
  are the probes of CMake and Ninja.
\<close>

theorem vcpkg_available_without_probe:
  "fst (collect_results ex_linux True (initial Map.empty))
     = Inr [(''CMake'', True, ''cmake version 3.28.1''), (''Ninja'', True, ''1.11.1''),
            (''vcpkg'', True, ''/opt/vcpkg'')]
   \<and> spawned (trace (snd (collect_results ex_linux True (initial Map.empty))))
     = [([''/usr/bin/cmake'', ''--version''], Completed 0 ''cmake version 3.28.1'' []),
        ([''/usr/bin/ninja'', ''--version''], Completed 0 ''1.11.1'' [])]"
  by code_simp

subsection \<open>An engine-only run does not look for pnpm\<close>

lemma collect_results_platform:
  assumes "collect_results h skip_app w = (Inr rows, w')"
  shows "\<exists>pf. detect_platform h = Inr pf"
proof -
  from collect_results_rows [OF assms] obtain rs w1 where
    "check_tools h (required_tools skip_app) w = (Inr rs, w1)" by blast
  then show ?thesis
    by (cases "detect_platform h")
       (auto simp: required_tools_def check_tool_def seq_def lift_def split: if_splits)
qed

lemma without_pnpm_detect:
  "detect_platform (h\<lparr>which := (which h)(''pnpm'' := x)\<rparr>) = detect_platform h"
  by (simp add: detect_platform_def)

lemma without_pnpm_run_proc:
  "run_proc (h\<lparr>which := (which h)(''pnpm'' := x)\<rparr>) = run_proc h"
  by (simp add: run_proc_def fun_eq_iff)

lemma without_pnpm_exists_now:
  "exists_now (h\<lparr>which := (which h)(''pnpm'' := x)\<rparr>) = exists_now h"
  by (simp add: exists_now_def fun_eq_iff)

lemma without_pnpm_first_existing:
  "first_existing (h\<lparr>which := (which h)(''pnpm'' := x)\<rparr>) = first_existing h"
  by (simp add: first_existing_def fun_eq_iff)

lemma without_pnpm_getenv_or:
  "getenv_or (h\<lparr>which := (which h)(''pnpm'' := x)\<rparr>) = getenv_or h"
  by (simp add: getenv_or_def fun_eq_iff)

lemma without_pnpm_probe:
  "probe (h\<lparr>which := (which h)(''pnpm'' := x)\<rparr>) = probe h"
  by (simp add: probe_def fun_eq_iff without_pnpm_run_proc)

lemma without_pnpm_find_visual_studio:
  "find_visual_studio (h\<lparr>which := (which h)(''pnpm'' := x)\<rparr>) = find_visual_studio h"
  by (simp add: find_visual_studio_def without_pnpm_detect without_pnpm_run_proc
        without_pnpm_exists_now without_pnpm_getenv_or Let_def
        cong: if_cong option.case_cong list.case_cong proc_result.case_cong)

lemma without_pnpm_find_cmake_windows:
  "find_cmake_windows (h\<lparr>which := (which h)(''pnpm'' := x)\<rparr>) = find_cmake_windows h"
  by (simp add: find_cmake_windows_def without_pnpm_find_visual_studio without_pnpm_exists_now
        without_pnpm_first_existing Let_def
        cong: if_cong option.case_cong list.case_cong proc_result.case_cong)

lemma without_pnpm_vcpkg_from_env:
  "vcpkg_from_env (h\<lparr>which := (which h)(''pnpm'' := x)\<rparr>) = vcpkg_from_env h"
  by (simp add: vcpkg_from_env_def fun_eq_iff Let_def
        cong: if_cong option.case_cong list.case_cong proc_result.case_cong)

lemma without_pnpm_find_vcpkg_windows:
  "find_vcpkg_windows (h\<lparr>which := (which h)(''pnpm'' := x)\<rparr>) = find_vcpkg_windows h"
  by (simp add: find_vcpkg_windows_def without_pnpm_find_visual_studio without_pnpm_exists_now
        without_pnpm_vcpkg_from_env without_pnpm_getenv_or Let_def
        cong: if_cong option.case_cong list.case_cong proc_result.case_cong)

lemma without_pnpm_check_vcpkg:
  "check_vcpkg (h\<lparr>which := (which h)(''pnpm'' := x)\<rparr>) = check_vcpkg h"
  by (simp add: check_vcpkg_def without_pnpm_detect without_pnpm_find_vcpkg_windows
        without_pnpm_vcpkg_from_env Let_def
        cong: if_cong option.case_cong list.case_cong proc_result.case_cong)

lemma without_pnpm_standard_check:
  "c0 \<noteq> ''pnpm'' \<Longrightarrow>
   standard_check (h\<lparr>which := (which h)(''pnpm'' := x)\<rparr>) name (c0 # rest)
     = standard_check h name (c0 # rest)"
  by (simp add: standard_check_def without_pnpm_probe Let_def
        cong: if_cong option.case_cong list.case_cong proc_result.case_cong)

lemma without_pnpm_check_tool:
  "name \<noteq> ''pnpm'' \<Longrightarrow> c0 \<noteq> ''pnpm'' \<Longrightarrow>
   check_tool (h\<lparr>which := (which h)(''pnpm'' := x)\<rparr>) name (c0 # rest)
     = check_tool h name (c0 # rest)"
  by (simp add: check_tool_def without_pnpm_detect without_pnpm_find_cmake_windows
        without_pnpm_probe without_pnpm_standard_check Let_def
        cong: if_cong option.case_cong list.case_cong proc_result.case_cong)

lemma without_pnpm_collect_results:
  "collect_results (h\<lparr>which := (which h)(''pnpm'' := x)\<rparr>) True = collect_results h True"
  by (simp add: collect_results_def required_tools_def without_pnpm_check_tool
        without_pnpm_check_vcpkg Let_def
        cong: if_cong option.case_cong list.case_cong proc_result.case_cong)

lemma without_pnpm_check_prerequisites:
  "check_prerequisites (h\<lparr>which := (which h)(''pnpm'' := x)\<rparr>) True = check_prerequisites h True"
  by (simp add: check_prerequisites_def without_pnpm_collect_results without_pnpm_detect Let_def
        cong: if_cong option.case_cong list.case_cong proc_result.case_cong)

lemma check_prerequisites_passes:
  assumes c: "collect_results h skip_app w = (Inr rows, w')" and ok: "list_all (\<lambda>r. fst (snd r)) rows"
  shows "fst (check_prerequisites h skip_app w) = Inr ()"
proof -
  from collect_results_platform [OF c] obtain pf where "detect_platform h = Inr pf" by blast
  with c ok show ?thesis
    by (simp add: check_prerequisites_def seq_def lift_def get_def emits_def ret_def)
qed

text \<open>
  C10. With the application stage skipped the tools required are CMake and Ninja, the rows
  of the table are CMake, Ninja and vcpkg, and the stage passes when these three are
  available. Whether and where pnpm is found on the PATH makes no difference to the stage:
  the result and the final state are the same on a host that differs only in that.
\<close>

theorem engine_only_needs_no_pnpm:
  "map fst (required_tools True) = [''CMake'', ''Ninja'']
   \<and> (collect_results h True w = (Inr rows, w') \<longrightarrow>
        map fst rows = [''CMake'', ''Ninja'', ''vcpkg'']
        \<and> (list_all (\<lambda>r. fst (snd r)) rows \<longrightarrow> fst (check_prerequisites h True w) = Inr ()))
   \<and> check_prerequisites (h\<lparr>which := (which h)(''pnpm'' := x)\<rparr>) True w = check_prerequisites h True w"
proof (intro conjI impI)
  show "map fst (required_tools True) = [''CMake'', ''Ninja'']" by (simp add: required_tools_def)
  show "check_prerequisites (h\<lparr>which := (which h)(''pnpm'' := x)\<rparr>) True w = check_prerequisites h True w"
    by (simp add: without_pnpm_check_prerequisites)
next
  assume c: "collect_results h True w = (Inr rows, w')"
  from collect_results_rows [OF c] obtain rs w1 v where
    ct: "check_tools h (required_tools True) w = (Inr rs, w1)"
    and rows: "rows = rs @ [if truthy v then (''vcpkg'', True, the v) else (''vcpkg'', False, ''not found'')]"
    by blast
  from check_tools_rows [OF ct] have "map fst rs = [''CMake'', ''Ninja'']"
    by (auto simp: required_tools_def)
  with rows show "map fst rows = [''CMake'', ''Ninja'', ''vcpkg'']" by simp
  assume "list_all (\<lambda>r. fst (snd r)) rows"
  with c show "fst (check_prerequisites h True w) = Inr ()" by (rule check_prerequisites_passes)
qed

theorem engine_only_needs_no_pnpm_witness:
  "which ex_linux ''pnpm'' = None
   \<and> fst (collect_results ex_linux True (initial Map.empty))
       = Inr [(''CMake'', True, ''cmake version 3.28.1''), (''Ninja'', True, ''1.11.1''),
              (''vcpkg'', True, ''/opt/vcpkg'')]
   \<and> fst (check_prerequisites ex_linux True (initial Map.empty)) = Inr ()
   \<and> fst (check_prerequisites ex_linux False (initial Map.empty))
       = Inl (Fatal ''Missing prerequisites - install them and try again'')"
proof -
  let ?r = "collect_results ex_linux True (initial Map.empty)"
  have a: "which ex_linux ''pnpm'' = None" by (simp add: ex_linux_def)
  have c: "fst ?r = Inr [(''CMake'', True, ''cmake version 3.28.1''), (''Ninja'', True, ''1.11.1''),
              (''vcpkg'', True, ''/opt/vcpkg'')]" by code_simp
  have d: "fst (check_prerequisites ex_linux False (initial Map.empty))
       = Inl (Fatal ''Missing prerequisites - install them and try again'')" by code_simp
  have e: "?r = (Inr [(''CMake'', True, ''cmake version 3.28.1''), (''Ninja'', True, ''1.11.1''),
              (''vcpkg'', True, ''/opt/vcpkg'')], snd ?r)" using c by (cases ?r) simp
  from engine_only_needs_no_pnpm [of ex_linux "initial Map.empty" _ "snd ?r"] e
  have "fst (check_prerequisites ex_linux True (initial Map.empty)) = Inr ()" by simp
  with a c d show ?thesis by simp
qed

end
